theory Spec2Isabelle
  imports Main "HOL-Library.Word" "HOL-Library.List_Lexorder"
begin

section \<open>JavaScript strings\<close>

text \<open>
  A JavaScript string is a sequence of 16-bit code units. \<open>Array.prototype.sort\<close> without a
  comparator orders strings by their code units, lexicographically, a proper prefix first:
  the order of \<open>HOL-Library.List_Lexorder\<close> on lists of words.
\<close>

type_synonym jschar = "16 word"
type_synonym jsstring = "jschar list"

definition js :: "string \<Rightarrow> jsstring" where
  "js s = map (\<lambda>c. of_nat (of_char c)) s"

definition startsWith :: "jsstring \<Rightarrow> jsstring \<Rightarrow> bool" where
  "startsWith s p = (take (length p) s = p)"

text \<open>\<open>String.prototype.trim\<close> removes WhiteSpace and LineTerminator code points at both ends.\<close>

definition isWhiteSpace :: "jschar \<Rightarrow> bool" where
  "isWhiteSpace c =
     (c = 0x09 \<or> c = 0x0A \<or> c = 0x0B \<or> c = 0x0C \<or> c = 0x0D \<or> c = 0x20 \<or> c = 0xA0
      \<or> c = 0x1680 \<or> (0x2000 \<le> c \<and> c \<le> 0x200A) \<or> c = 0x2028 \<or> c = 0x2029
      \<or> c = 0x202F \<or> c = 0x205F \<or> c = 0x3000 \<or> c = 0xFEFF)"

definition trim :: "jsstring \<Rightarrow> jsstring" where
  "trim s = rev (dropWhile isWhiteSpace (rev (dropWhile isWhiteSpace s)))"

text \<open>\<open>s.split(sep)\<close> for a separator of one code unit: never the empty array.\<close>

fun split :: "'a \<Rightarrow> 'a list \<Rightarrow> 'a list list" where
  "split sep [] = [ [] ]"
| "split sep (c # cs) =
     (if c = sep then [] # split sep cs
      else (let r = split sep cs in (c # hd r) # tl r))"

text \<open>\<open>parts.join(sep)\<close>.\<close>

fun join :: "'a \<Rightarrow> 'a list list \<Rightarrow> 'a list" where
  "join sep [] = []"
| "join sep [p] = p"
| "join sep (p # q # ps) = p @ sep # join sep (q # ps)"

definition comma :: jschar where
  "comma = 0x2C"

text \<open>analyzer.js, line 33: \<open>eventName.split(',').map(e => e.trim()).sort().join(',')\<close>.\<close>

definition normalizeEventName :: "jsstring \<Rightarrow> jsstring" where
  "normalizeEventName eventName = join comma (sort (map trim (split comma eventName)))"

section \<open>The syntax tree\<close>

text \<open>
  The node classes of ast-nodes: only the fields the analyzer reads or writes. A node's
  parent and scope links are passed to the analyzer functions as the enclosing scope.
\<close>

record TransitionNode =
  t_event :: jsstring
  t_target :: jsstring
  t_line :: nat
  t_column :: nat

record EventProtocolNode =
  ep_eventName :: jsstring
  ep_line :: nat
  ep_column :: nat

record UseDirectiveNode =
  u_machineId :: jsstring
  u_line :: nat
  u_column :: nat

datatype StateKind = Atomic | Compound | Parallel | Transient | Final

datatype StateNode = StateNode
  (s_id: jsstring)
  (s_stateType: StateKind)
  (s_initial: bool)
  (s_line: nat)
  (s_column: nat)
  (s_states: "StateNode list")
  (s_transitions: "TransitionNode list")
  (s_eventProtocols: "EventProtocolNode list")
  (s_useDirective: "UseDirectiveNode option")

record MachineNode =
  m_id :: jsstring
  m_line :: nat
  m_column :: nat
  m_states :: "StateNode list"
  m_transitions :: "TransitionNode list"
  m_eventProtocols :: "EventProtocolNode list"

text \<open>\<open>i_resolved\<close> is the field \<open>_file\<close> that analyzeImportNode writes.\<close>

record ImportNode =
  i_file :: jsstring
  i_resolved :: "jsstring option"
  i_line :: nat
  i_column :: nat

record ScopeNode =
  sc_fileName :: jsstring
  sc_imports :: "ImportNode list"
  sc_machines :: "MachineNode list"

text \<open>A state with all the states below it, in document order.\<close>

fun descendants :: "StateNode \<Rightarrow> StateNode list" where
  "descendants (StateNode ident stateType initial line column states transitions eventProtocols
      useDirective) =
     StateNode ident stateType initial line column states transitions eventProtocols useDirective
       # concat (map descendants states)"

section \<open>Errors\<close>

text \<open>
  The message of a SemanticError, by its template in analyzer.js, with the value the
  template interpolates.
\<close>

datatype message =
    DuplicateMachine jsstring
  | DuplicateState jsstring
  | DuplicateTransition jsstring
  | DuplicateEventProtocol jsstring
  | TransitionTargetUnresolved jsstring
  | OneInitialOnlyMachine jsstring
  | OneInitialOnlyState jsstring
  | TransientWithChildren jsstring
  | MachineNotFound jsstring

text \<open>
  \<open>SemanticError message fileName line column\<close>; \<open>Error\<close> is a plain Error with its message;
  \<open>NotFound file\<close> is the Error with code ENOENT that requireWireStateFile makes;
  \<open>IoError code\<close> is an error of \<open>fs.stat\<close> with another code; \<open>TypeError\<close> is a property read
  or a method call on undefined.
\<close>

datatype error =
    SemanticError message jsstring nat nat
  | Error jsstring
  | NotFound jsstring
  | IoError jsstring
  | TypeError
  | OptionMustHaveValue jsstring
  | OptionRequired "jsstring list"
  | OptionOnlyOneValue "jsstring list"

section \<open>Uniqueness checks\<close>

text \<open>\<open>new Set(xs)\<close>, iterated: the distinct values in the order of their first insertion.\<close>

definition set_add :: "'a list \<Rightarrow> 'a \<Rightarrow> 'a list" where
  "set_add acc x = (if x \<in> set acc then acc else acc @ [x])"

definition new_Set :: "'a list \<Rightarrow> 'a list" where
  "new_Set xs = foldl set_add [] xs"

fun indexOf :: "'a list \<Rightarrow> 'a \<Rightarrow> int" where
  "indexOf [] x = - 1"
| "indexOf (y # ys) x =
     (if y = x then 0 else (let i = indexOf ys x in if i < 0 then - 1 else i + 1))"

fun lastIndexOf :: "'a list \<Rightarrow> 'a \<Rightarrow> int" where
  "lastIndexOf [] x = - 1"
| "lastIndexOf (y # ys) x =
     (let i = lastIndexOf ys x in if 0 \<le> i then i + 1 else if y = x then 0 else - 1)"

text \<open>
  The loop \<open>for (let x of new Set(xs)) { if (xs.indexOf(x) !== xs.lastIndexOf(x)) ... }\<close>:
  the value at which the loop body throws, if any.
\<close>

definition firstDuplicate :: "'a list \<Rightarrow> 'a option" where
  "firstDuplicate xs = List.find (\<lambda>x. indexOf xs x \<noteq> lastIndexOf xs x) (new_Set xs)"

text \<open>
  The blocks of analyzeMachineNode and analyzeStateNode, one definition for each block.
  \<open>nodes.find(...)\<close> returns undefined when nothing matches, and reading \<open>.line\<close> of it is a
  TypeError.
\<close>

definition checkStateIds :: "jsstring \<Rightarrow> StateNode list \<Rightarrow> error option" where
  "checkStateIds fileName states =
     (case firstDuplicate (map s_id states) of
        None \<Rightarrow> None
      | Some stateId \<Rightarrow>
          (case List.find (\<lambda>n. s_id n = stateId) states of
             None \<Rightarrow> Some TypeError
           | Some n \<Rightarrow> Some (SemanticError (DuplicateState stateId) fileName (s_line n) (s_column n))))"

definition checkTransitions :: "jsstring \<Rightarrow> TransitionNode list \<Rightarrow> error option" where
  "checkTransitions fileName transitions =
     (case firstDuplicate (map (\<lambda>t. normalizeEventName (t_event t)) transitions) of
        None \<Rightarrow> None
      | Some event \<Rightarrow>
          (case List.find (\<lambda>n. normalizeEventName (t_event n) = event) transitions of
             None \<Rightarrow> Some TypeError
           | Some n \<Rightarrow>
               Some (SemanticError (DuplicateTransition (t_event n)) fileName (t_line n) (t_column n))))"

definition protocolEvent :: "EventProtocolNode \<Rightarrow> jsstring" where
  "protocolEvent n = join comma (sort (map trim (split comma (ep_eventName n))))"

definition checkEventProtocols :: "jsstring \<Rightarrow> EventProtocolNode list \<Rightarrow> error option" where
  "checkEventProtocols fileName eventProtocols =
     (case firstDuplicate (map protocolEvent eventProtocols) of
        None \<Rightarrow> None
      | Some event \<Rightarrow>
          (case List.find (\<lambda>n. protocolEvent n = event) eventProtocols of
             None \<Rightarrow> Some TypeError
           | Some n \<Rightarrow>
               Some (SemanticError (DuplicateEventProtocol (ep_eventName n)) fileName
                       (ep_line n) (ep_column n))))"

text \<open>
  resolveState belongs to ast-nodes and is a parameter here: \<open>resolveState t\<close> holds when the
  call returns a state node for the transition \<open>t\<close>.
\<close>

definition checkTargets :: "(TransitionNode \<Rightarrow> bool) \<Rightarrow> jsstring \<Rightarrow> TransitionNode list \<Rightarrow> error option"
  where
  "checkTargets resolveState fileName transitions =
     (case List.find (\<lambda>t. \<not> resolveState t) transitions of
        None \<Rightarrow> None
      | Some t \<Rightarrow>
          Some (SemanticError (TransitionTargetUnresolved (t_target t)) fileName
                  (t_line t) (t_column t)))"

definition checkInitial :: "message \<Rightarrow> jsstring \<Rightarrow> StateNode list \<Rightarrow> error option" where
  "checkInitial msg fileName states =
     (if 1 < length (filter s_initial states)
      then (let s = filter s_initial states ! 1
            in Some (SemanticError msg fileName (s_line s) (s_column s)))
      else None)"

text \<open>\<open>if (states.length && !states.some(n => n.initial)) states[0].initial = true\<close>.\<close>

definition markInitial :: "StateNode \<Rightarrow> StateNode" where
  "markInitial s =
     StateNode (s_id s) (s_stateType s) True (s_line s) (s_column s) (s_states s)
       (s_transitions s) (s_eventProtocols s) (s_useDirective s)"

definition defaultInitial :: "StateNode list \<Rightarrow> StateNode list" where
  "defaultInitial states =
     (case states of
        [] \<Rightarrow> []
      | s # rest \<Rightarrow> if list_ex s_initial states then states else markInitial s # rest)"

section \<open>Promises\<close>

text \<open>
  A promise is given by its outcome: the value it is fulfilled with (\<open>Inr\<close>), or the errors
  it can be rejected with (\<open>Inl\<close>). An asynchronous function that throws rejects its promise
  with that one error. \<open>Promise.all\<close> is fulfilled with all the values when every promise of
  the array is fulfilled; otherwise it is rejected with the rejection that settles first.
  Which one that is depends on the turns of the job queue each promise takes and on the
  order in which the file system answers, which the sources do not fix: the outcome keeps
  the errors of all the rejected promises, in the order of the array, and the error the
  program sees is one of them.
\<close>

type_synonym 'a promise = "error list + 'a"

fun promise_all :: "'a promise list \<Rightarrow> 'a list promise" where
  "promise_all [] = Inr []"
| "promise_all (Inl es # ps) =
     (case promise_all ps of Inl es' \<Rightarrow> Inl (es @ es') | Inr xs \<Rightarrow> Inl es)"
| "promise_all (Inr x # ps) =
     (case promise_all ps of Inl es' \<Rightarrow> Inl es' | Inr xs \<Rightarrow> Inr (x # xs))"

text \<open>
  The analyzer functions of a node change the node in place and return a promise for it.
  Their model returns the node as the call leaves it, and the rejections of the promise:
  \<open>None\<close> when the promise is fulfilled, with that node. \<open>outcome\<close> is the promise.
\<close>

definition outcome :: "'a \<times> error list option \<Rightarrow> 'a promise" where
  "outcome r = (case snd r of None \<Rightarrow> Inr (fst r) | Some es \<Rightarrow> Inl es)"

section \<open>The import cache\<close>

text \<open>
  Modelled from the spec: the class Cache of ./internal, which is not among the sources. It
  is a mapping from a file key to a future, with \<open>has\<close>, \<open>set\<close> and \<open>get\<close>. A future is a
  promise of an analysed scope. \<open>get\<close> of a key that was never set gives no future (\<open>None\<close>,
  undefined in the program).
\<close>

type_synonym future = "ScopeNode promise"
type_synonym cache = "jsstring \<rightharpoonup> future"

definition cache_has :: "cache \<Rightarrow> jsstring \<Rightarrow> bool" where
  "cache_has c key = (c key \<noteq> None)"

definition cache_get :: "cache \<Rightarrow> jsstring \<Rightarrow> future option" where
  "cache_get c key = c key"

definition cache_set :: "cache \<Rightarrow> jsstring \<Rightarrow> future \<Rightarrow> cache" where
  "cache_set c key p = c(key \<mapsto> p)"

section \<open>The analyzer: use directives, states and machines\<close>

text \<open>
  The analyzer functions take the options field \<open>cache\<close> as a \<open>cache option\<close>: \<open>None\<close> is a
  call without it, as \<open>analyze(scopeNode, { dirs })\<close> in requireWireStateFile, where every
  method call on the cache is a TypeError. The cache they read is the cache as it is when
  analyze is called: every \<open>cache.get\<close> of the analysis is called in a job of the promise
  queue, before the file system has answered any \<open>stat\<close> of the imports of this analysis.
\<close>

text \<open>
  \<open>Promise.all(scopeNode.imports.map(importNode => cache.get(importNode.file)))\<close>, awaited:
  an entry is \<open>None\<close> where the cache has no future for the key.
\<close>

definition importedScopes :: "cache option \<Rightarrow> ImportNode list \<Rightarrow> ScopeNode option list promise" where
  "importedScopes copt imports =
     (if imports = [] then Inr []
      else (case copt of
              None \<Rightarrow> Inl [TypeError]
            | Some c \<Rightarrow>
                promise_all
                  (map (\<lambda>importNode.
                          (case cache_get c (i_file importNode) of
                             None \<Rightarrow> Inr None
                           | Some (Inl es) \<Rightarrow> Inl es
                           | Some (Inr sc) \<Rightarrow> Inr (Some sc)))
                     imports)))"

text \<open>
  \<open>importedScopeNodes.some(scopeNode => { machineNode = scopeNode.machines.find(...);
  return !!machineNode })\<close>: stops at the first scope with the machine; reading \<open>.machines\<close>
  of undefined is a TypeError.
\<close>

fun someMachine :: "jsstring \<Rightarrow> ScopeNode option list \<Rightarrow> bool promise" where
  "someMachine machineId [] = Inr False"
| "someMachine machineId (None # rest) = Inl [TypeError]"
| "someMachine machineId (Some sc # rest) =
     (if List.find (\<lambda>m. m_id m = machineId) (sc_machines sc) \<noteq> None then Inr True
      else someMachine machineId rest)"

text \<open>analyzeUseDirectiveNode, lines 390 to 422.\<close>

definition analyzeUseDirectiveNode ::
  "cache option \<Rightarrow> ScopeNode \<Rightarrow> UseDirectiveNode option \<Rightarrow> UseDirectiveNode option promise" where
  "analyzeUseDirectiveNode copt scopeNode useDirectiveNode =
     (case useDirectiveNode of
        None \<Rightarrow> Inr None
      | Some u \<Rightarrow>
          (if List.find (\<lambda>m. m_id m = u_machineId u) (sc_machines scopeNode) \<noteq> None
           then Inr (Some u)
           else (case importedScopes copt (sc_imports scopeNode) of
                   Inl es \<Rightarrow> Inl es
                 | Inr importedScopeNodes \<Rightarrow>
                     (case someMachine (u_machineId u) importedScopeNodes of
                        Inl es \<Rightarrow> Inl es
                      | Inr True \<Rightarrow> Inr (Some u)
                      | Inr False \<Rightarrow>
                          Inl [SemanticError (MachineNotFound (u_machineId u))
                                 (sc_fileName scopeNode) (u_line u) (u_column u)]))))"

text \<open>
  analyzeStateNode, lines 270 to 382. Every write to the node comes before the first
  await, and so do the calls for the children, each up to its own first await: the state
  type, the initial flag of the first child and the children as their calls leave them are
  written whichever promise is rejected later. A throw leaves the node as it is then.
\<close>

function analyzeStateNode ::
  "(TransitionNode \<Rightarrow> bool) \<Rightarrow> cache option \<Rightarrow> ScopeNode \<Rightarrow> StateNode
     \<Rightarrow> StateNode \<times> error list option" where
  "analyzeStateNode resolveState copt scopeNode
      (StateNode ident stateType initial line column states transitions eventProtocols useDirective) =
     (if stateType = Transient \<and> states \<noteq> []
      then (StateNode ident stateType initial line column states transitions eventProtocols
              useDirective,
            Some [SemanticError (TransientWithChildren ident) (sc_fileName scopeNode)
                    (s_line (hd states)) (s_column (hd states))])
      else
        (let stateType' = (if stateType = Atomic \<and> states \<noteq> [] then Compound else stateType);
             stateNode = StateNode ident stateType' initial line column states transitions
                           eventProtocols useDirective
         in case checkStateIds (sc_fileName scopeNode) states of
              Some e \<Rightarrow> (stateNode, Some [e])
            | None \<Rightarrow>
         (case checkTransitions (sc_fileName scopeNode) transitions of
              Some e \<Rightarrow> (stateNode, Some [e])
            | None \<Rightarrow>
         (case checkEventProtocols (sc_fileName scopeNode) eventProtocols of
              Some e \<Rightarrow> (stateNode, Some [e])
            | None \<Rightarrow>
         (case checkTargets resolveState (sc_fileName scopeNode) transitions of
              Some e \<Rightarrow> (stateNode, Some [e])
            | None \<Rightarrow>
         (case checkInitial (OneInitialOnlyState ident) (sc_fileName scopeNode) states of
              Some e \<Rightarrow> (stateNode, Some [e])
            | None \<Rightarrow>
         (let children = map (analyzeStateNode resolveState copt scopeNode) (defaultInitial states);
              stateNode' = StateNode ident stateType' initial line column (map fst children)
                             transitions eventProtocols useDirective
          in case promise_all (map outcome children) of
               Inl es \<Rightarrow> (stateNode', Some es)
             | Inr states' \<Rightarrow>
                 (case analyzeUseDirectiveNode copt scopeNode useDirective of
                    Inl es \<Rightarrow> (stateNode', Some es)
                  | Inr useDirective' \<Rightarrow>
                      (StateNode ident stateType' initial line column states' transitions
                         eventProtocols useDirective',
                       None)))))))))"
  by pat_completeness auto
termination
proof (relation "measure (\<lambda>(resolveState, copt, scopeNode, s). size s)", goal_cases)
  case 1
  show ?case by simp
next
  case (2 resolveState copt scopeNode ident stateType initial line column states transitions
          eventProtocols useDirective stateType' stateNode x)
  have "size x \<le> size_list size states"
  proof (cases states)
    case Nil
    with 2 show ?thesis by (simp add: defaultInitial_def)
  next
    case (Cons s rest)
    have m: "size (markInitial s) = size s"
      by (cases s) (simp add: markInitial_def)
    from 2 Cons have "x \<in> set states \<or> x = markInitial s"
      by (auto simp: defaultInitial_def split: if_splits)
    then show ?thesis
    proof
      assume "x \<in> set states"
      then show ?thesis by (simp add: size_list_estimation')
    next
      assume "x = markInitial s"
      then show ?thesis using m Cons by simp
    qed
  qed
  then show ?case by simp
qed

text \<open>analyzeMachineNode, lines 167 to 262, in the same way.\<close>

definition analyzeMachineNode ::
  "(TransitionNode \<Rightarrow> bool) \<Rightarrow> cache option \<Rightarrow> ScopeNode \<Rightarrow> MachineNode
     \<Rightarrow> MachineNode \<times> error list option" where
  "analyzeMachineNode resolveState copt scopeNode machineNode =
     (case checkStateIds (sc_fileName scopeNode) (m_states machineNode) of
        Some e \<Rightarrow> (machineNode, Some [e])
      | None \<Rightarrow>
     (case checkTransitions (sc_fileName scopeNode) (m_transitions machineNode) of
        Some e \<Rightarrow> (machineNode, Some [e])
      | None \<Rightarrow>
     (case checkEventProtocols (sc_fileName scopeNode) (m_eventProtocols machineNode) of
        Some e \<Rightarrow> (machineNode, Some [e])
      | None \<Rightarrow>
     (case checkTargets resolveState (sc_fileName scopeNode) (m_transitions machineNode) of
        Some e \<Rightarrow> (machineNode, Some [e])
      | None \<Rightarrow>
     (case checkInitial (OneInitialOnlyMachine (m_id machineNode)) (sc_fileName scopeNode)
             (m_states machineNode) of
        Some e \<Rightarrow> (machineNode, Some [e])
      | None \<Rightarrow>
     (let children = map (analyzeStateNode resolveState copt scopeNode)
                       (defaultInitial (m_states machineNode))
      in case promise_all (map outcome children) of
           Inl es \<Rightarrow> (machineNode\<lparr>m_states := map fst children\<rparr>, Some es)
         | Inr states' \<Rightarrow> (machineNode\<lparr>m_states := states'\<rparr>, None)))))))"

section \<open>Paths and the file system\<close>

text \<open>
  \<open>Path.join\<close> of Node on POSIX, for two arguments: the non-empty arguments are joined by
  a slash and the result is normalized, segment by segment (empty and \<open>.\<close> segments are
  dropped, \<open>..\<close> removes the segment before it).
\<close>

definition slash :: jschar where
  "slash = 0x2F"

definition dot :: jschar where
  "dot = 0x2E"

definition backslash :: jschar where
  "backslash = 0x5C"

fun normalizeSegments :: "bool \<Rightarrow> jsstring list \<Rightarrow> jsstring list \<Rightarrow> jsstring list" where
  "normalizeSegments allowAboveRoot res [] = res"
| "normalizeSegments allowAboveRoot res (seg # segs) =
     (if seg = [] \<or> seg = [dot] then normalizeSegments allowAboveRoot res segs
      else if seg = [dot, dot] then
        (if res \<noteq> [] \<and> last res \<noteq> [dot, dot]
         then normalizeSegments allowAboveRoot (butlast res) segs
         else if allowAboveRoot then normalizeSegments allowAboveRoot (res @ [seg]) segs
         else normalizeSegments allowAboveRoot res segs)
      else normalizeSegments allowAboveRoot (res @ [seg]) segs)"

definition path_normalize :: "jsstring \<Rightarrow> jsstring" where
  "path_normalize path =
     (if path = [] then [dot]
      else
        (let isAbsolute = (hd path = slash);
             trailingSeparator = (last path = slash);
             p = join slash (normalizeSegments (\<not> isAbsolute) [] (split slash path))
         in if p = []
            then (if isAbsolute then [slash] else if trailingSeparator then [dot, slash] else [dot])
            else (let p' = (if trailingSeparator then p @ [slash] else p)
                  in if isAbsolute then slash # p' else p')))"

definition path_join :: "jsstring \<Rightarrow> jsstring \<Rightarrow> jsstring" where
  "path_join a b =
     (let parts = filter (\<lambda>p. p \<noteq> []) [a, b]
      in if parts = [] then [dot] else path_normalize (join slash parts))"

text \<open>
  The file system, as \<open>fs.stat\<close> sees it: a regular file, something else (a directory),
  or an error with its code.
\<close>

datatype stat = IsFile | NotFile | StatFails jsstring

text \<open>The callback of lines 64 to 72: a stat error is caught when its code is ENOENT.\<close>

definition matchResult :: "(jsstring \<Rightarrow> stat) \<Rightarrow> jsstring \<Rightarrow> bool promise" where
  "matchResult fs fileName =
     (case fs fileName of
        IsFile \<Rightarrow> Inr True
      | NotFile \<Rightarrow> Inr False
      | StatFails code \<Rightarrow> if code = js ''ENOENT'' then Inr False else Inl [IoError code])"

fun findIndex :: "('a \<Rightarrow> bool) \<Rightarrow> 'a list \<Rightarrow> int" where
  "findIndex P [] = - 1"
| "findIndex P (x # xs) =
     (if P x then 0 else (let i = findIndex P xs in if i < 0 then - 1 else i + 1))"

text \<open>\<open>xs[i]\<close>: undefined (\<open>None\<close>) outside the array.\<close>

definition at :: "'a list \<Rightarrow> int \<Rightarrow> 'a option" where
  "at xs i = (if 0 \<le> i \<and> i < int (length xs) then Some (xs ! nat i) else None)"

text \<open>
  requireWireStateFile, lines 60 to 62: the search directories, \<open>.\<close> when none is given,
  and the file name in each of them.
\<close>

definition searchDirs :: "jsstring list \<Rightarrow> jsstring list" where
  "searchDirs dirs = (if dirs = [] then [ [dot] ] else dirs)"

definition fileNames :: "jsstring \<Rightarrow> jsstring list \<Rightarrow> jsstring list" where
  "fileNames wireStateFile dirs = map (\<lambda>dir. path_join dir wireStateFile) (searchDirs dirs)"

text \<open>
  requireWireStateFile, lines 63 to 81: the first matched file name, or the rejection. All
  the stats are asked for at once and awaited together.
\<close>

definition firstMatchedFileName :: "(jsstring \<Rightarrow> stat) \<Rightarrow> jsstring \<Rightarrow> jsstring list \<Rightarrow> jsstring promise"
  where
  "firstMatchedFileName fs wireStateFile dirs =
     (case promise_all (map (matchResult fs) (fileNames wireStateFile dirs)) of
        Inl es \<Rightarrow> Inl es
      | Inr matchResults \<Rightarrow>
          (case at (fileNames wireStateFile dirs) (findIndex (\<lambda>result. result) matchResults) of
             None \<Rightarrow> Inl [NotFound wireStateFile]
           | Some fileName \<Rightarrow>
               if fileName = [] then Inl [NotFound wireStateFile] else Inr fileName))"

section \<open>The analyzer: imports and scopes\<close>

text \<open>
  requireWireStateFile, lines 59 to 100, as one step on the cache, made when the file
  system has answered: the promise it returns (fulfilled with the future that
  \<open>cache.get(firstMatchedFileName)\<close> gives, \<open>None\<close> where that is undefined) and the cache
  afterwards. \<open>makePromise fileName dirs\<close> is the promise made at line 88.
\<close>

definition requireWireStateFile ::
  "(jsstring \<Rightarrow> jsstring list \<Rightarrow> future) \<Rightarrow> (jsstring \<Rightarrow> stat) \<Rightarrow> jsstring \<Rightarrow> cache option
     \<Rightarrow> jsstring list \<Rightarrow> future option promise \<times> cache option" where
  "requireWireStateFile makePromise fs wireStateFile copt dirs =
     (case firstMatchedFileName fs wireStateFile dirs of
        Inl es \<Rightarrow> (Inl es, copt)
      | Inr fileName \<Rightarrow>
          (case copt of
             None \<Rightarrow> (Inl [TypeError], None)
           | Some c \<Rightarrow>
               if cache_has c wireStateFile then (Inr (cache_get c fileName), Some c)
               else (let c' = cache_set c wireStateFile (makePromise fileName (searchDirs dirs))
                     in (Inr (cache_get c' fileName), Some c'))))"

text \<open>
  analyzeImportNode, lines 149 to 159: the node with \<open>_file\<close> written, and the file for which
  it calls requireWireStateFile. The call is not awaited. When analyzeImportNode returns,
  that call has asked for the stats and nothing more: its step on the cache, and its
  rejection if it fails, come when the file system has answered, and no one awaits them.
\<close>

definition importFile :: "ScopeNode \<Rightarrow> ImportNode \<Rightarrow> jsstring" where
  "importFile parent importNode =
     (if startsWith (i_file importNode) [dot, slash] \<or> startsWith (i_file importNode) [dot, backslash]
      then path_join (sc_fileName parent) (i_file importNode)
      else i_file importNode)"

definition analyzeImportNode :: "ScopeNode \<Rightarrow> ImportNode \<Rightarrow> ImportNode \<times> jsstring" where
  "analyzeImportNode parent importNode =
     (let file = importFile parent importNode
      in (importNode\<lparr>i_resolved := Some file\<rparr>, file))"

definition checkMachineIds :: "jsstring \<Rightarrow> MachineNode list \<Rightarrow> error option" where
  "checkMachineIds fileName machines =
     (case firstDuplicate (map m_id machines) of
        None \<Rightarrow> None
      | Some machineId \<Rightarrow>
          (case List.find (\<lambda>n. m_id n = machineId) machines of
             None \<Rightarrow> Some TypeError
           | Some n \<Rightarrow>
               Some (SemanticError (DuplicateMachine machineId) fileName (m_line n) (m_column n))))"

text \<open>
  analyzeScopeNode, lines 108 to 141: the scope as the call leaves it with the rejections
  of its promise, and the files of the requireWireStateFile calls it has started, in the
  order of the imports. The machines are analysed with the cache as it was given.
\<close>

definition analyzeScopeNode ::
  "(TransitionNode \<Rightarrow> bool) \<Rightarrow> ScopeNode \<Rightarrow> cache option
     \<Rightarrow> (ScopeNode \<times> error list option) \<times> jsstring list" where
  "analyzeScopeNode resolveState scopeNode copt =
     (case checkMachineIds (sc_fileName scopeNode) (sc_machines scopeNode) of
        Some e \<Rightarrow> ((scopeNode, Some [e]), [])
      | None \<Rightarrow>
          (let imported = map (analyzeImportNode scopeNode) (sc_imports scopeNode);
               machines = map (analyzeMachineNode resolveState copt scopeNode) (sc_machines scopeNode);
               scopeNode' = scopeNode\<lparr>sc_imports := map fst imported,
                                        sc_machines := map fst machines\<rparr>
           in case promise_all (map outcome machines) of
                Inl es \<Rightarrow> ((scopeNode', Some es), map snd imported)
              | Inr machines' \<Rightarrow>
                  ((scopeNode\<lparr>sc_imports := map fst imported, sc_machines := machines'\<rparr>, None),
                   map snd imported)))"

text \<open>
  The ScopeNode objects that exist, by address: a reference to one is its index. A value
  of the program is a primitive, an array, or a reference; a reference outside the store
  is to an object of another class.
\<close>

type_synonym store = "ScopeNode list"

datatype jsvalue =
    JSUndefined
  | JSNull
  | JSBoolean bool
  | JSString jsstring
  | JSArray "jsvalue list"
  | JSObject nat

datatype 'a completion = Throws error | Returns 'a

text \<open>
  Modelled from the spec: the method clone of ScopeNode, in ast-nodes, which is not among
  the sources. The analyzer "clones and then mutates" the scope the parser made and
  "returns a validated clone": a new object, with a copy of the whole tree. It returns the
  address of the clone and the store with it.
\<close>

definition clone :: "store \<Rightarrow> nat \<Rightarrow> nat \<times> store" where
  "clone st a = (length st, st @ [st ! a])"

text \<open>
  analyze, lines 44 to 50: what the call does (it throws, or it returns the promise of
  analyzeScopeNode, fulfilled with the reference it was called on), the files of the
  requireWireStateFile calls started, and the store afterwards. analyzeScopeNode changes
  the object it is called on: the store has the scope as the call leaves it at that
  address.
\<close>

definition analyze ::
  "(TransitionNode \<Rightarrow> bool) \<Rightarrow> store \<Rightarrow> jsvalue \<Rightarrow> cache option
     \<Rightarrow> (jsvalue promise completion \<times> jsstring list) \<times> store" where
  "analyze resolveState st v copt =
     (case v of
        JSObject a \<Rightarrow>
          (if a < length st
           then (let cloned = clone st a;
                     r = analyzeScopeNode resolveState (snd cloned ! fst cloned) copt
                 in ((Returns (case snd (fst r) of
                                 None \<Rightarrow> Inr (JSObject (fst cloned))
                               | Some es \<Rightarrow> Inl es),
                      snd r),
                     (snd cloned)[fst cloned := fst (fst r)]))
           else ((Throws (Error (js ''Can only analyzie ScopeNode instances'')), []), st))
      | _ \<Rightarrow> ((Throws (Error (js ''Can only analyzie ScopeNode instances'')), []), st))"

section \<open>The generator dispatcher\<close>

text \<open>
  lib/generator/index.js. The two generators are parameters: each takes the state it may
  touch and returns its result with the state afterwards. An option is \<open>None\<close> when the caller
  leaves it out, and then takes its default.
\<close>

definition quote :: jschar where
  "quote = 0x22"

definition generate ::
  "('s \<Rightarrow> 'r \<times> 's) \<Rightarrow> (bool \<Rightarrow> 's \<Rightarrow> 'r \<times> 's) \<Rightarrow> 's \<Rightarrow> jsstring option \<Rightarrow> bool option
     \<Rightarrow> (error + 'r) \<times> 's" where
  "generate jsonGenerator xstateGenerator cache generatorNameOpt disableCallbacksOpt =
     (let generatorName = (case generatorNameOpt of None \<Rightarrow> js ''json'' | Some n \<Rightarrow> n);
          disableCallbacks = (case disableCallbacksOpt of None \<Rightarrow> False | Some b \<Rightarrow> b)
      in if generatorName = [] then (Inl (Error (js ''Generator name must be provided'')), cache)
         else if generatorName = js ''json''
           then (let r = jsonGenerator cache in (Inr (fst r), snd r))
         else if generatorName = js ''xstate''
           then (let r = xstateGenerator disableCallbacks cache in (Inr (fst r), snd r))
         else (Inl (Error (js ''Generator '' @ [quote] @ generatorName @ [quote] @ js '' not found'')),
               cache))"

section \<open>The command line\<close>

text \<open>
  readOption, lines 22 to 61 of the command-line script. A default value is null, a
  boolean, a string or an array; the value returned has the same shapes.
\<close>

definition equals :: jschar where
  "equals = 0x3D"

definition hyphen :: jschar where
  "hyphen = 0x2D"

text \<open>The body of \<open>names.forEach\<close> for one name, on the pair of argValues and argCount.\<close>

definition readName ::
  "jsstring list \<Rightarrow> jsvalue \<Rightarrow> jsvalue list \<times> nat \<Rightarrow> jsstring \<Rightarrow> error + jsvalue list \<times> nat" where
  "readName args defaultValue acc name =
     (let index = findIndex (\<lambda>arg. startsWith arg name) args
      in if 0 \<le> index
         then
           (let arg = args ! nat index;
                optionValue =
                  (if equals \<in> set arg then JSString (join equals (tl (split equals arg)))
                   else (case at args (index + 1) of
                           None \<Rightarrow> JSUndefined
                         | Some a \<Rightarrow> JSString a));
                isBoolean = (case defaultValue of JSBoolean b \<Rightarrow> True | _ \<Rightarrow> False);
                missing = (case optionValue of
                             JSString a \<Rightarrow> a = [] \<or> startsWith a [hyphen]
                           | _ \<Rightarrow> True)
            in if \<not> isBoolean \<and> missing then Inl (OptionMustHaveValue name)
               else
                 (let optionValue' = (if isBoolean then JSBoolean True else optionValue)
                  in if snd acc = 0 then Inr ([optionValue'], 1)
                     else Inr (fst acc @ [optionValue'], snd acc + 1)))
         else Inr acc)"

fun readNames ::
  "jsstring list \<Rightarrow> jsvalue \<Rightarrow> jsvalue list \<times> nat \<Rightarrow> jsstring list \<Rightarrow> error + jsvalue list \<times> nat" where
  "readNames args defaultValue acc [] = Inr acc"
| "readNames args defaultValue acc (name # names) =
     (case readName args defaultValue acc name of
        Inl e \<Rightarrow> Inl e
      | Inr acc' \<Rightarrow> readNames args defaultValue acc' names)"

definition readOption :: "jsstring list \<Rightarrow> jsstring list \<Rightarrow> jsvalue \<Rightarrow> error + jsvalue" where
  "readOption names args defaultValue =
     (let argValues0 = (case defaultValue of JSArray vs \<Rightarrow> vs | v \<Rightarrow> [v])
      in case readNames args defaultValue (argValues0, 0) names of
           Inl e \<Rightarrow> Inl e
         | Inr (argValues, argCount) \<Rightarrow>
             (case defaultValue of
                JSArray vs \<Rightarrow> Inr (JSArray argValues)
              | _ \<Rightarrow>
                  if argCount = 1 then Inr (hd argValues)
                  else if argCount = 0 \<and> (defaultValue = JSNull \<or> defaultValue = JSUndefined)
                    then Inl (OptionRequired names)
                  else Inl (OptionOnlyOneValue names)))"

text \<open>
  main, lines 67 to 91: the process exits with a code, or an exception leaves main, or
  main calls \<open>WireState.compile\<close> with the input file name and the options dir, generatorName
  and cacheDir.
\<close>

datatype invocation =
    Exit nat
  | Uncaught error
  | Compile jsstring jsvalue jsvalue jsvalue

definition main :: "jsstring list \<Rightarrow> invocation" where
  "main args =
     (if list_ex (\<lambda>arg. arg = js ''--help'' \<or> arg = js ''-h'') args then Exit 0
      else
        (let inputFileName = List.find (\<lambda>arg. \<not> startsWith arg [hyphen]) args
         in case readOption [js ''--dir''] args (JSString []) of
              Inl e \<Rightarrow> Uncaught e
            | Inr dir \<Rightarrow>
         (case readOption [js ''--generator''] args (JSString (js ''json'')) of
              Inl e \<Rightarrow> Uncaught e
            | Inr generatorName \<Rightarrow>
         (case readOption [js ''--cacheDir''] args (JSString (js ''.wirestate'')) of
              Inl e \<Rightarrow> Uncaught e
            | Inr cacheDir \<Rightarrow>
         (case inputFileName of
              None \<Rightarrow> Exit 20
            | Some f \<Rightarrow> if f = [] then Exit 20 else Compile f dir generatorName cacheDir)))))"

section \<open>Facts about strings\<close>

lemma split_not_empty: "split sep s \<noteq> []"
  by (induction s) (auto simp: Let_def)

lemma split_parts_without_sep: "p \<in> set (split sep s) \<Longrightarrow> sep \<notin> set p"
proof (induction s arbitrary: p)
  case Nil
  then show ?case by simp
next
  case (Cons c cs)
  show ?case
  proof (cases "c = sep")
    case True
    with Cons show ?thesis by auto
  next
    case False
    obtain q qs where "split sep cs = q # qs"
      using split_not_empty[of sep cs] by (cases "split sep cs") auto
    with Cons False show ?thesis by (auto simp: Let_def)
  qed
qed

lemma split_append_sep: "sep \<notin> set p \<Longrightarrow> split sep (p @ sep # s) = p # split sep s"
  by (induction p) (auto simp: Let_def)

lemma split_without_sep: "sep \<notin> set p \<Longrightarrow> split sep p = [p]"
  by (induction p) (auto simp: Let_def)

lemma split_join:
  "ps \<noteq> [] \<Longrightarrow> \<forall>p\<in>set ps. sep \<notin> set p \<Longrightarrow> split sep (join sep ps) = ps"
  by (induction sep ps rule: join.induct) (auto simp: split_append_sep split_without_sep)

lemma set_trim: "set (trim s) \<subseteq> set s"
  by (auto simp: trim_def dest!: set_dropWhileD)

lemma trim_idem: "trim (trim s) = trim s"
proof -
  define d where "d = dropWhile isWhiteSpace s"
  define r where "r = dropWhile isWhiteSpace (rev d)"
  have t: "trim s = rev r"
    by (simp add: trim_def d_def r_def)
  have r_hd: "r \<noteq> [] \<Longrightarrow> \<not> isWhiteSpace (hd r)"
    unfolding r_def by (rule hd_dropWhile)
  have d_hd: "d \<noteq> [] \<Longrightarrow> \<not> isWhiteSpace (hd d)"
    unfolding d_def by (rule hd_dropWhile)
  have "dropWhile isWhiteSpace (rev r) = rev r"
  proof (cases "r = []")
    case True
    then show ?thesis by simp
  next
    case False
    obtain pre where pre: "rev d = pre @ r"
      unfolding r_def by (metis takeWhile_dropWhile_id)
    from False pre have dn: "d \<noteq> []" by auto
    from pre False have "last r = last (rev d)" by simp
    also have "\<dots> = hd d" using dn by (simp add: last_rev)
    finally have "\<not> isWhiteSpace (last r)" using d_hd dn by simp
    then have "\<not> isWhiteSpace (hd (rev r))" using False by (simp add: hd_rev)
    then show ?thesis using False by (cases "rev r") auto
  qed
  moreover have "dropWhile isWhiteSpace r = r"
    using r_hd by (cases r) auto
  ultimately have "trim (rev r) = rev r"
    by (simp add: trim_def)
  then show ?thesis by (simp add: t)
qed

lemma normalizeEventName_fixed:
  "normalizeEventName (normalizeEventName s) = normalizeEventName s"
proof -
  define ps where "ps = sort (map trim (split comma s))"
  have "length ps = length (split comma s)"
    by (simp add: ps_def)
  then have ne: "ps \<noteq> []"
    using split_not_empty[of comma s] by auto
  have nosep: "\<forall>p\<in>set ps. comma \<notin> set p"
    using split_parts_without_sep set_trim by (fastforce simp: ps_def)
  have tr: "map trim ps = ps"
    by (rule map_idI) (auto simp: ps_def trim_idem)
  have sp: "split comma (join comma ps) = ps"
    using split_join[OF ne nosep] .
  have srt: "sort ps = ps"
    unfolding ps_def by (rule sort_key_id_if_sorted) simp
  have "normalizeEventName s = join comma ps"
    by (simp add: normalizeEventName_def ps_def)
  moreover have "normalizeEventName (join comma ps) = join comma ps"
    unfolding normalizeEventName_def sp tr srt ..
  ultimately show ?thesis by simp
qed

section \<open>Facts about the uniqueness checks\<close>

lemma count_list_pos: "x \<in> set xs \<Longrightarrow> 0 < count_list xs x"
  using count_list_0_iff[of xs x] by auto

lemma indexOf_neg_iff: "indexOf xs x < 0 \<longleftrightarrow> x \<notin> set xs"
  by (induction xs) (auto simp: Let_def)

lemma indexOf_ge: "- 1 \<le> indexOf xs x"
  by (induction xs) (auto simp: Let_def)

lemma lastIndexOf_nonneg_iff: "0 \<le> lastIndexOf xs x \<longleftrightarrow> x \<in> set xs"
  by (induction xs) (auto simp: Let_def)

lemma lastIndexOf_ge: "- 1 \<le> lastIndexOf xs x"
  by (induction xs) (auto simp: Let_def)

lemma lastIndexOf_notin: "x \<notin> set xs \<Longrightarrow> lastIndexOf xs x = - 1"
  using lastIndexOf_nonneg_iff[of xs x] lastIndexOf_ge[of xs x] by linarith

lemma indexOf_notin: "x \<notin> set xs \<Longrightarrow> indexOf xs x = - 1"
  using indexOf_neg_iff[of xs x] indexOf_ge[of xs x] by linarith

lemma indexOf_le_lastIndexOf: "indexOf xs x \<le> lastIndexOf xs x"
proof (induction xs)
  case Nil show ?case by simp
next
  case (Cons y ys)
  show ?case
  proof (cases "x \<in> set ys")
    case True
    then have "0 \<le> lastIndexOf ys x" "\<not> indexOf ys x < 0"
      by (simp_all add: lastIndexOf_nonneg_iff indexOf_neg_iff)
    with Cons show ?thesis by (auto simp: Let_def)
  next
    case False
    then show ?thesis by (auto simp: Let_def lastIndexOf_notin indexOf_notin)
  qed
qed

lemma duplicated_iff: "indexOf xs x \<noteq> lastIndexOf xs x \<longleftrightarrow> 2 \<le> count_list xs x"
proof (induction xs)
  case Nil show ?case by simp
next
  case (Cons y ys)
  show ?case
  proof (cases "x \<in> set ys")
    case True
    then have a: "0 \<le> lastIndexOf ys x" "\<not> indexOf ys x < 0" "0 < count_list ys x"
      by (simp_all add: lastIndexOf_nonneg_iff indexOf_neg_iff count_list_pos)
    with Cons show ?thesis by (auto simp: Let_def)
  next
    case False
    then have "count_list ys x = 0" by (simp add: count_list_0_iff)
    with False show ?thesis by (auto simp: Let_def lastIndexOf_notin indexOf_notin)
  qed
qed

lemma set_foldl_set_add: "set (foldl set_add acc xs) = set acc \<union> set xs"
  by (induction xs arbitrary: acc) (auto simp: set_add_def)

lemma set_new_Set: "set (new_Set xs) = set xs"
  by (simp add: new_Set_def set_foldl_set_add)

lemma foldl_set_add_prefix: "\<exists>sfx. foldl set_add acc xs = acc @ sfx"
proof (induction xs arbitrary: acc)
  case Nil show ?case by simp
next
  case (Cons x xs)
  obtain sfx where "foldl set_add (set_add acc x) xs = set_add acc x @ sfx"
    using Cons by blast
  moreover have "set_add acc x = acc \<or> set_add acc x = acc @ [x]"
    by (simp add: set_add_def)
  ultimately show ?case by auto
qed

lemma new_Set_first_occurrence:
  assumes "x \<notin> set pre"
  shows "\<exists>A sfx. new_Set (pre @ x # rest) = A @ x # sfx \<and> set A = set pre"
proof -
  define A where "A = foldl set_add [] pre"
  have sA: "set A = set pre" by (simp add: A_def set_foldl_set_add)
  with assms have "set_add A x = A @ [x]" by (simp add: set_add_def)
  moreover obtain sfx where "foldl set_add (A @ [x]) rest = (A @ [x]) @ sfx"
    using foldl_set_add_prefix by blast
  ultimately have "new_Set (pre @ x # rest) = A @ x # sfx"
    by (simp add: new_Set_def A_def)
  with sA show ?thesis by blast
qed

lemma find_append_Some:
  "List.find P (A @ x # sfx) = Some x \<Longrightarrow> x \<notin> set A \<Longrightarrow> \<forall>y\<in>set A. \<not> P y"
  by (induction A) (auto split: if_splits)

lemma firstDuplicate_None_iff: "firstDuplicate xs = None \<longleftrightarrow> distinct xs"
proof -
  have "firstDuplicate xs = None \<longleftrightarrow> (\<forall>x\<in>set xs. count_list xs x < 2)"
    by (auto simp: firstDuplicate_def find_None_iff set_new_Set duplicated_iff not_le)
  also have "\<dots> \<longleftrightarrow> distinct xs"
  proof (induction xs)
    case Nil show ?case by simp
  next
    case (Cons y ys)
    show ?case
    proof (cases "y \<in> set ys")
      case True
      then have "0 < count_list ys y" by (rule count_list_pos)
      with True show ?thesis by auto
    next
      case False
      then have "count_list ys y = 0" by (simp add: count_list_0_iff)
      with False Cons show ?thesis by (auto simp: count_list_0_iff)
    qed
  qed
  finally show ?thesis .
qed

lemma firstDuplicate_Some:
  assumes "firstDuplicate xs = Some x"
  shows "\<exists>pre rest. xs = pre @ x # rest \<and> x \<notin> set pre \<and> 2 \<le> count_list xs x
           \<and> (\<forall>y\<in>set pre. count_list xs y = 1)"
proof -
  from assms have fx: "List.find (\<lambda>x. indexOf xs x \<noteq> lastIndexOf xs x) (new_Set xs) = Some x"
    by (simp add: firstDuplicate_def)
  then have "x \<in> set (new_Set xs)" and dx: "indexOf xs x \<noteq> lastIndexOf xs x"
    by (auto simp: find_Some_iff)
  then have "x \<in> set xs" by (simp add: set_new_Set)
  then obtain pre rest where xs: "xs = pre @ x # rest" and np: "x \<notin> set pre"
    by (meson split_list_first)
  obtain A sfx where A: "new_Set xs = A @ x # sfx" "set A = set pre"
    using new_Set_first_occurrence[OF np, of rest] xs by blast
  have "\<forall>y\<in>set A. \<not> (indexOf xs y \<noteq> lastIndexOf xs y)"
    using find_append_Some[of _ A x sfx] fx A np by auto
  then have "\<forall>y\<in>set pre. count_list xs y < 2"
    using A(2) by (auto simp: duplicated_iff not_le)
  moreover have "\<forall>y\<in>set pre. 0 < count_list xs y"
    using xs by (auto intro: count_list_pos)
  ultimately have "\<forall>y\<in>set pre. count_list xs y = 1" by fastforce
  moreover from dx have "2 \<le> count_list xs x" by (simp add: duplicated_iff)
  ultimately show ?thesis using xs np by blast
qed

lemma find_first_key:
  "key n \<notin> key ` set pre \<Longrightarrow> List.find (\<lambda>m. key m = key n) (pre @ n # rest) = Some n"
  by (induction pre) auto

lemma firstDuplicate_nodes:
  assumes "\<not> distinct (map key ns)"
  shows "\<exists>pre n rest. ns = pre @ n # rest \<and> key n \<notin> key ` set pre
           \<and> 2 \<le> count_list (map key ns) (key n)
           \<and> (\<forall>p\<in>set pre. count_list (map key ns) (key p) = 1)
           \<and> firstDuplicate (map key ns) = Some (key n)
           \<and> List.find (\<lambda>m. key m = key n) ns = Some n"
proof -
  from assms obtain x where fx: "firstDuplicate (map key ns) = Some x"
    using firstDuplicate_None_iff[of "map key ns"] by (cases "firstDuplicate (map key ns)") auto
  from firstDuplicate_Some[OF fx] obtain pre' rest' where
    s: "map key ns = pre' @ x # rest'" "x \<notin> set pre'" "2 \<le> count_list (map key ns) x"
       "\<forall>y\<in>set pre'. count_list (map key ns) y = 1" by blast
  from s(1) obtain pre n rest where
    n: "ns = pre @ n # rest" "map key pre = pre'" "key n = x" "map key rest = rest'"
    by (auto simp: map_eq_append_conv map_eq_Cons_conv)
  have "key n \<notin> key ` set pre" using s(2) n by auto
  moreover have "\<forall>p\<in>set pre. count_list (map key ns) (key p) = 1"
  proof
    fix p assume "p \<in> set pre"
    then have "key p \<in> set pre'" using n(2) by auto
    with s(4) show "count_list (map key ns) (key p) = 1" by blast
  qed
  moreover have "List.find (\<lambda>m. key m = key n) ns = Some n"
    unfolding n(1) using \<open>key n \<notin> key ` set pre\<close> by (rule find_first_key)
  ultimately show ?thesis using n s fx by blast
qed

lemma protocolEvent_normalizeEventName: "protocolEvent p = normalizeEventName (ep_eventName p)"
  by (simp add: protocolEvent_def normalizeEventName_def)

lemma checkTransitions_None_iff:
  "checkTransitions fileName ts = None \<longleftrightarrow> distinct (map (\<lambda>t. normalizeEventName (t_event t)) ts)"
proof (cases "distinct (map (\<lambda>t. normalizeEventName (t_event t)) ts)")
  case True
  then show ?thesis by (simp add: checkTransitions_def firstDuplicate_None_iff[symmetric])
next
  case False
  from firstDuplicate_nodes[OF False] False show ?thesis
    by (auto simp: checkTransitions_def)
qed

lemma checkTransitions_Some:
  assumes "\<not> distinct (map (\<lambda>t. normalizeEventName (t_event t)) ts)"
  shows "\<exists>pre n rest. ts = pre @ n # rest
           \<and> normalizeEventName (t_event n) \<notin> (\<lambda>t. normalizeEventName (t_event t)) ` set pre
           \<and> 2 \<le> count_list (map (\<lambda>t. normalizeEventName (t_event t)) ts) (normalizeEventName (t_event n))
           \<and> (\<forall>p\<in>set pre. count_list (map (\<lambda>t. normalizeEventName (t_event t)) ts) (normalizeEventName (t_event p)) = 1)
           \<and> checkTransitions fileName ts = Some (SemanticError (DuplicateTransition (t_event n)) fileName (t_line n) (t_column n))"
proof -
  from firstDuplicate_nodes[OF assms] obtain pre n rest where
    h: "ts = pre @ n # rest"
       "normalizeEventName (t_event n) \<notin> (\<lambda>t. normalizeEventName (t_event t)) ` set pre"
       "2 \<le> count_list (map (\<lambda>t. normalizeEventName (t_event t)) ts) (normalizeEventName (t_event n))"
       "\<forall>p\<in>set pre. count_list (map (\<lambda>t. normalizeEventName (t_event t)) ts) (normalizeEventName (t_event p)) = 1"
       "firstDuplicate (map (\<lambda>t. normalizeEventName (t_event t)) ts) = Some (normalizeEventName (t_event n))"
       "List.find (\<lambda>m. normalizeEventName (t_event m) = normalizeEventName (t_event n)) ts = Some n"
    by blast
  have "checkTransitions fileName ts = Some (SemanticError (DuplicateTransition (t_event n)) fileName (t_line n) (t_column n))"
    by (simp add: checkTransitions_def h(5,6))
  with h(1-4) show ?thesis by blast
qed

lemma checkEventProtocols_None_iff:
  "checkEventProtocols fileName ps = None \<longleftrightarrow> distinct (map protocolEvent ps)"
proof (cases "distinct (map protocolEvent ps)")
  case True
  then show ?thesis by (simp add: checkEventProtocols_def firstDuplicate_None_iff[symmetric])
next
  case False
  from firstDuplicate_nodes[OF False] False show ?thesis
    by (auto simp: checkEventProtocols_def)
qed

lemma checkEventProtocols_Some:
  assumes "\<not> distinct (map protocolEvent ps)"
  shows "\<exists>n. n \<in> set ps \<and> checkEventProtocols fileName ps =
           Some (SemanticError (DuplicateEventProtocol (ep_eventName n)) fileName (ep_line n) (ep_column n))"
proof -
  from firstDuplicate_nodes[OF assms] obtain pre n rest where
    h: "ps = pre @ n # rest"
       "firstDuplicate (map protocolEvent ps) = Some (protocolEvent n)"
       "List.find (\<lambda>m. protocolEvent m = protocolEvent n) ps = Some n"
    by blast
  have "checkEventProtocols fileName ps =
           Some (SemanticError (DuplicateEventProtocol (ep_eventName n)) fileName (ep_line n) (ep_column n))"
    by (simp add: checkEventProtocols_def h(2,3))
  with h(1) show ?thesis by auto
qed

section \<open>Facts about promises\<close>

lemma promise_all_map_Inr_id: "promise_all (map Inr xs) = Inr xs"
  by (induction xs) simp_all

lemma promise_all_Inr_iff: "promise_all ps = Inr xs \<longleftrightarrow> ps = map Inr xs"
proof
  show "promise_all ps = Inr xs \<Longrightarrow> ps = map Inr xs"
  proof (induction ps arbitrary: xs)
    case Nil
    then show ?case by simp
  next
    case (Cons p ps)
    then show ?case by (cases p) (auto split: sum.splits)
  qed
next
  show "ps = map Inr xs \<Longrightarrow> promise_all ps = Inr xs"
    by (simp add: promise_all_map_Inr_id)
qed

lemma promise_all_map_Inr:
  assumes "promise_all (map f ys) = Inr xs"
  shows "length xs = length ys \<and> (\<forall>i<length ys. f (ys ! i) = Inr (xs ! i))"
proof -
  from assms have m: "map f ys = map Inr xs" by (simp add: promise_all_Inr_iff)
  then have l: "length xs = length ys" by (metis length_map)
  have "\<forall>i<length ys. f (ys ! i) = Inr (xs ! i)"
  proof (intro allI impI)
    fix i assume "i < length ys"
    then show "f (ys ! i) = Inr (xs ! i)" using m l by (metis nth_map)
  qed
  with l show ?thesis by simp
qed

lemma outcome_Inr_iff: "outcome r = Inr x \<longleftrightarrow> r = (x, None)"
  by (cases r) (auto simp: outcome_def split: option.splits)

lemma promise_all_outcome:
  assumes "promise_all (map (\<lambda>y. outcome (f y)) ys) = Inr xs"
  shows "length xs = length ys \<and> (\<forall>i<length ys. f (ys ! i) = (xs ! i, None))"
  using promise_all_map_Inr[OF assms] by (simp add: outcome_Inr_iff)

lemma promise_all_outcome_fst:
  assumes "promise_all (map (\<lambda>y. outcome (f y)) ys) = Inr xs"
  shows "map (\<lambda>y. fst (f y)) ys = xs"
  using promise_all_outcome[OF assms] by (intro nth_equalityI) auto

section \<open>Facts about analysed states\<close>

lemma length_defaultInitial: "length (defaultInitial states) = length states"
  by (cases states) (simp_all add: defaultInitial_def)

lemma analyzeStateNode_transient:
  assumes "s_stateType s = Transient" "s_states s \<noteq> []"
  shows "analyzeStateNode resolveState copt scopeNode s =
           (s, Some [SemanticError (TransientWithChildren (s_id s)) (sc_fileName scopeNode)
                       (s_line (hd (s_states s))) (s_column (hd (s_states s)))])"
  using assms by (cases s) simp

lemma analyzeStateNode_fulfilled:
  assumes "analyzeStateNode resolveState copt scopeNode s = (s', None)"
  shows "\<not> (s_stateType s = Transient \<and> s_states s \<noteq> [])
     \<and> checkStateIds (sc_fileName scopeNode) (s_states s) = None
     \<and> checkTransitions (sc_fileName scopeNode) (s_transitions s) = None
     \<and> checkEventProtocols (sc_fileName scopeNode) (s_eventProtocols s) = None
     \<and> checkTargets resolveState (sc_fileName scopeNode) (s_transitions s) = None
     \<and> checkInitial (OneInitialOnlyState (s_id s)) (sc_fileName scopeNode) (s_states s) = None
     \<and> (\<exists>states' useDirective'.
           promise_all (map (\<lambda>c. outcome (analyzeStateNode resolveState copt scopeNode c))
              (defaultInitial (s_states s))) = Inr states'
         \<and> analyzeUseDirectiveNode copt scopeNode (s_useDirective s) = Inr useDirective'
         \<and> s' = StateNode (s_id s)
                  (if s_stateType s = Atomic \<and> s_states s \<noteq> [] then Compound else s_stateType s)
                  (s_initial s) (s_line s) (s_column s) states' (s_transitions s)
                  (s_eventProtocols s) useDirective')"
proof (cases s)
  case (StateNode ident stateType initial line column states transitions eventProtocols useDirective)
  from assms show ?thesis
    unfolding StateNode
    by (auto simp: Let_def comp_def split: if_splits option.splits sum.splits)
qed

lemma analyzeStateNode_left:
  "s_id (fst (analyzeStateNode resolveState copt scopeNode s)) = s_id s
   \<and> s_initial (fst (analyzeStateNode resolveState copt scopeNode s)) = s_initial s
   \<and> s_line (fst (analyzeStateNode resolveState copt scopeNode s)) = s_line s
   \<and> s_column (fst (analyzeStateNode resolveState copt scopeNode s)) = s_column s
   \<and> s_stateType (fst (analyzeStateNode resolveState copt scopeNode s))
       = (if s_stateType s = Atomic \<and> s_states s \<noteq> [] then Compound else s_stateType s)"
proof (cases s)
  case (StateNode ident stateType initial line column states transitions eventProtocols useDirective)
  show ?thesis
    unfolding StateNode
    by (auto simp: Let_def split: option.splits sum.splits)
qed

lemma size_markInitial: "size (markInitial s) = size s"
  by (cases s) (simp add: markInitial_def)

lemma size_defaultInitial:
  assumes "x \<in> set (defaultInitial (s_states s))"
  shows "size x < size s"
proof (cases s)
  case (StateNode ident stateType initial line column states transitions eventProtocols useDirective)
  have "size x \<le> size_list size states"
  proof (cases states)
    case Nil
    with assms StateNode show ?thesis by (simp add: defaultInitial_def)
  next
    case (Cons c rest)
    from assms StateNode Cons have "x \<in> set states \<or> x = markInitial c"
      by (auto simp: defaultInitial_def split: if_splits)
    then show ?thesis
    proof
      assume "x \<in> set states"
      then show ?thesis by (simp add: size_list_estimation')
    next
      assume "x = markInitial c"
      then show ?thesis using Cons by (simp add: size_markInitial)
    qed
  qed
  then show ?thesis using StateNode by simp
qed

lemma descendants_unfold: "descendants s = s # concat (map descendants (s_states s))"
  by (cases s) simp

lemma analyzeStateNode_children:
  assumes "analyzeStateNode resolveState copt scopeNode s = (s', None)"
  shows "length (s_states s') = length (s_states s)
     \<and> (\<forall>i<length (s_states s).
           analyzeStateNode resolveState copt scopeNode (defaultInitial (s_states s) ! i)
             = (s_states s' ! i, None))"
proof -
  from analyzeStateNode_fulfilled[OF assms] obtain states' useDirective' where
    p: "promise_all (map (\<lambda>c. outcome (analyzeStateNode resolveState copt scopeNode c))
          (defaultInitial (s_states s))) = Inr states'"
    and s': "s' = StateNode (s_id s)
                  (if s_stateType s = Atomic \<and> s_states s \<noteq> [] then Compound else s_stateType s)
                  (s_initial s) (s_line s) (s_column s) states' (s_transitions s)
                  (s_eventProtocols s) useDirective'"
    by blast
  from promise_all_outcome[OF p] s' show ?thesis
    by (simp add: length_defaultInitial)
qed

lemma analyzeStateNode_fields:
  assumes "analyzeStateNode resolveState copt scopeNode s = (s', None)"
  shows "s_id s' = s_id s \<and> s_initial s' = s_initial s \<and> s_line s' = s_line s
     \<and> s_column s' = s_column s
     \<and> s_stateType s' =
         (if s_stateType s = Atomic \<and> s_states s \<noteq> [] then Compound else s_stateType s)"
  using analyzeStateNode_left[of resolveState copt scopeNode s] assms by simp

lemma descendants_analysed:
  "analyzeStateNode resolveState copt scopeNode s = (s', None) \<Longrightarrow> d \<in> set (descendants s')
     \<Longrightarrow> \<exists>d0. analyzeStateNode resolveState copt scopeNode d0 = (d, None)"
proof (induction s arbitrary: s' rule: measure_induct_rule[where f = size])
  case (less s)
  from less.prems(2) have "d = s' \<or> (\<exists>c\<in>set (s_states s'). d \<in> set (descendants c))"
    by (subst (asm) descendants_unfold) auto
  then show ?case
  proof
    assume "d = s'"
    with less.prems(1) show ?thesis by blast
  next
    assume "\<exists>c\<in>set (s_states s'). d \<in> set (descendants c)"
    then obtain c where c: "c \<in> set (s_states s')" "d \<in> set (descendants c)" by blast
    then obtain i where i: "i < length (s_states s')" "c = s_states s' ! i"
      by (auto simp: in_set_conv_nth)
    from analyzeStateNode_children[OF less.prems(1)] i
    have l: "i < length (s_states s)"
      and a: "analyzeStateNode resolveState copt scopeNode (defaultInitial (s_states s) ! i)
                = (c, None)"
      by auto
    from l have "defaultInitial (s_states s) ! i \<in> set (defaultInitial (s_states s))"
      by (simp add: length_defaultInitial)
    then have "size (defaultInitial (s_states s) ! i) < size s"
      by (rule size_defaultInitial)
    from less.IH[OF this a c(2)] show ?thesis .
  qed
qed

section \<open>Facts about the checks of a node\<close>

lemma checkStateIds_None_iff:
  "checkStateIds fileName states = None \<longleftrightarrow> distinct (map s_id states)"
proof (cases "distinct (map s_id states)")
  case True
  then show ?thesis by (simp add: checkStateIds_def firstDuplicate_None_iff[symmetric])
next
  case False
  from firstDuplicate_nodes[OF False] False show ?thesis
    by (auto simp: checkStateIds_def)
qed

lemma checkTargets_None_iff:
  "checkTargets resolveState fileName ts = None \<longleftrightarrow> (\<forall>t\<in>set ts. resolveState t)"
proof (cases "List.find (\<lambda>t. \<not> resolveState t) ts")
  case None
  then have "\<forall>t\<in>set ts. resolveState t"
    by (auto simp: find_None_iff)
  with None show ?thesis by (simp add: checkTargets_def)
next
  case (Some t)
  then have "t \<in> set ts \<and> \<not> resolveState t"
    by (auto simp: find_Some_iff)
  with Some show ?thesis by (auto simp: checkTargets_def)
qed

lemma checkInitial_None_iff:
  "checkInitial msg fileName states = None \<longleftrightarrow> length (filter s_initial states) \<le> 1"
  by (auto simp: checkInitial_def Let_def)

lemma s_initial_markInitial: "s_initial (markInitial s)" "s_id (markInitial s) = s_id s"
  by (simp_all add: markInitial_def)

lemma filter_initial_defaultInitial:
  assumes "states \<noteq> []" "length (filter s_initial states) \<le> 1"
  shows "length (filter s_initial (defaultInitial states)) = 1"
proof (cases "list_ex s_initial states")
  case True
  then have "filter s_initial states \<noteq> []"
    by (auto simp: list_ex_iff filter_empty_conv)
  then have "1 \<le> length (filter s_initial states)"
    by (cases "filter s_initial states") auto
  moreover from True assms(1) have "defaultInitial states = states"
    by (cases states) (auto simp: defaultInitial_def)
  ultimately show ?thesis using assms(2) by simp
next
  case False
  from assms(1) obtain c rest where cr: "states = c # rest" by (cases states) auto
  with False have "filter s_initial rest = []"
    by (auto simp: list_ex_iff filter_empty_conv)
  moreover from False cr have "defaultInitial states = markInitial c # rest"
    by (simp add: defaultInitial_def)
  ultimately show ?thesis by (simp add: s_initial_markInitial)
qed

lemma hd_defaultInitial:
  assumes "states \<noteq> []" "\<not> list_ex s_initial states"
  shows "s_initial (hd (defaultInitial states)) \<and> s_id (hd (defaultInitial states)) = s_id (hd states)"
proof -
  from assms(1) obtain c rest where cr: "states = c # rest" by (cases states) auto
  with assms(2) have "defaultInitial states = markInitial c # rest"
    by (simp add: defaultInitial_def)
  with cr show ?thesis by (simp add: s_initial_markInitial)
qed

lemma length_filter_map: "length (filter P xs) = length (filter (\<lambda>b. b) (map P xs))"
  by (induction xs) auto

lemma analysed_children:
  assumes "promise_all (map (\<lambda>c. outcome (analyzeStateNode resolveState copt scopeNode c)) (defaultInitial states))
             = Inr states'"
  shows "length states' = length states
     \<and> map s_initial states' = map s_initial (defaultInitial states)
     \<and> map s_id states' = map s_id (defaultInitial states)"
proof -
  from promise_all_outcome[OF assms]
  have l: "length states' = length (defaultInitial states)"
    and a: "\<forall>i<length (defaultInitial states).
              analyzeStateNode resolveState copt scopeNode (defaultInitial states ! i)
                = (states' ! i, None)"
    by auto
  have "map s_initial states' = map s_initial (defaultInitial states)"
    using l a by (intro nth_equalityI) (auto dest!: analyzeStateNode_fields)
  moreover have "map s_id states' = map s_id (defaultInitial states)"
    using l a by (intro nth_equalityI) (auto dest!: analyzeStateNode_fields)
  ultimately show ?thesis using l by (simp add: length_defaultInitial)
qed

lemma analysed_children_one_initial:
  assumes "promise_all (map (\<lambda>c. outcome (analyzeStateNode resolveState copt scopeNode c)) (defaultInitial states))
             = Inr states'"
    and "length (filter s_initial states) \<le> 1" and "states' \<noteq> []"
  shows "length (filter s_initial states') = 1"
proof -
  from analysed_children[OF assms(1)] have l: "length states' = length states"
    and m: "map s_initial states' = map s_initial (defaultInitial states)" by auto
  from l assms(3) have "states \<noteq> []" by auto
  from filter_initial_defaultInitial[OF this assms(2)]
  show ?thesis
    using m length_filter_map[of s_initial states']
      length_filter_map[of s_initial "defaultInitial states"] by simp
qed

lemma analysed_children_first_initial:
  assumes "promise_all (map (\<lambda>c. outcome (analyzeStateNode resolveState copt scopeNode c)) (defaultInitial states))
             = Inr states'"
    and "states \<noteq> []" and "\<not> list_ex s_initial states"
  shows "states' \<noteq> [] \<and> s_initial (hd states') \<and> s_id (hd states') = s_id (hd states)"
proof -
  from analysed_children[OF assms(1)] have l: "length states' = length states"
    and m: "map s_initial states' = map s_initial (defaultInitial states)"
    and n: "map s_id states' = map s_id (defaultInitial states)" by auto
  from l assms(2) have ne: "states' \<noteq> []" by auto
  have dne: "defaultInitial states \<noteq> []"
    using assms(2) length_defaultInitial[of states] by auto
  from m ne dne have "s_initial (hd states') = s_initial (hd (defaultInitial states))"
    by (metis hd_map)
  moreover from n ne dne have "s_id (hd states') = s_id (hd (defaultInitial states))"
    by (metis hd_map)
  ultimately show ?thesis using ne hd_defaultInitial[OF assms(2,3)] by simp
qed

lemma analyzeStateNode_one_initial:
  assumes "analyzeStateNode resolveState copt scopeNode s = (s', None)" "s_states s' \<noteq> []"
  shows "length (filter s_initial (s_states s')) = 1"
proof -
  from analyzeStateNode_fulfilled[OF assms(1)] obtain states' where
    c: "checkInitial (OneInitialOnlyState (s_id s)) (sc_fileName scopeNode) (s_states s) = None"
    and p: "promise_all (map (\<lambda>c. outcome (analyzeStateNode resolveState copt scopeNode c))
              (defaultInitial (s_states s))) = Inr states'"
    and s': "s_states s' = states'"
    by auto
  from c have "length (filter s_initial (s_states s)) \<le> 1" by (simp add: checkInitial_None_iff)
  from analysed_children_one_initial[OF p this] assms(2) s' show ?thesis by simp
qed

lemma analyzeStateNode_first_initial:
  assumes "analyzeStateNode resolveState copt scopeNode s = (s', None)"
    and "s_states s \<noteq> []" and "\<not> list_ex s_initial (s_states s)"
  shows "s_states s' \<noteq> [] \<and> s_initial (hd (s_states s'))
     \<and> s_id (hd (s_states s')) = s_id (hd (s_states s))"
proof -
  from analyzeStateNode_fulfilled[OF assms(1)] obtain states' where
    p: "promise_all (map (\<lambda>c. outcome (analyzeStateNode resolveState copt scopeNode c))
              (defaultInitial (s_states s))) = Inr states'"
    and s': "s_states s' = states'"
    by auto
  from analysed_children_first_initial[OF p assms(2,3)] s' show ?thesis by simp
qed

lemma analyzeMachineNode_fulfilled:
  assumes "analyzeMachineNode resolveState copt scopeNode m = (m', None)"
  shows "checkStateIds (sc_fileName scopeNode) (m_states m) = None
     \<and> checkTransitions (sc_fileName scopeNode) (m_transitions m) = None
     \<and> checkEventProtocols (sc_fileName scopeNode) (m_eventProtocols m) = None
     \<and> checkTargets resolveState (sc_fileName scopeNode) (m_transitions m) = None
     \<and> checkInitial (OneInitialOnlyMachine (m_id m)) (sc_fileName scopeNode) (m_states m) = None
     \<and> (\<exists>states'.
           promise_all (map (\<lambda>c. outcome (analyzeStateNode resolveState copt scopeNode c))
              (defaultInitial (m_states m))) = Inr states'
         \<and> m' = m\<lparr>m_states := states'\<rparr>)"
  using assms
  by (auto simp: analyzeMachineNode_def comp_def Let_def split: option.splits sum.splits)

lemma analyzeStateNode_initial_error:
  assumes "\<not> (s_stateType s = Transient \<and> s_states s \<noteq> [])"
    and "checkStateIds (sc_fileName scopeNode) (s_states s) = None"
    and "checkTransitions (sc_fileName scopeNode) (s_transitions s) = None"
    and "checkEventProtocols (sc_fileName scopeNode) (s_eventProtocols s) = None"
    and "checkTargets resolveState (sc_fileName scopeNode) (s_transitions s) = None"
    and "1 < length (filter s_initial (s_states s))"
  shows "snd (analyzeStateNode resolveState copt scopeNode s)
     = Some [SemanticError (OneInitialOnlyState (s_id s)) (sc_fileName scopeNode)
               (s_line (filter s_initial (s_states s) ! 1))
               (s_column (filter s_initial (s_states s) ! 1))]"
proof (cases s)
  case (StateNode ident stateType initial line column states transitions eventProtocols useDirective)
  with assms show ?thesis
    by (simp add: Let_def checkInitial_def)
qed

lemma analyzeMachineNode_initial_error:
  assumes "checkStateIds (sc_fileName scopeNode) (m_states m) = None"
    and "checkTransitions (sc_fileName scopeNode) (m_transitions m) = None"
    and "checkEventProtocols (sc_fileName scopeNode) (m_eventProtocols m) = None"
    and "checkTargets resolveState (sc_fileName scopeNode) (m_transitions m) = None"
    and "1 < length (filter s_initial (m_states m))"
  shows "snd (analyzeMachineNode resolveState copt scopeNode m)
     = Some [SemanticError (OneInitialOnlyMachine (m_id m)) (sc_fileName scopeNode)
               (s_line (filter s_initial (m_states m) ! 1))
               (s_column (filter s_initial (m_states m) ! 1))]"
  using assms by (simp add: analyzeMachineNode_def checkInitial_def Let_def)

section \<open>C1: the import cache\<close>

text \<open>
  C1. requireWireStateFile asks the cache for the key it was called with and reads it
  back with the matched file name. With the search directory \<open>lib\<close> and \<open>a.state\<close> already
  registered, \<open>has\<close> is true for \<open>a.state\<close> and the call returns what \<open>get\<close> gives for
  \<open>lib/a.state\<close>: nothing. On a miss it registers the promise under \<open>a.state\<close> and again
  returns nothing. Called without a cache, as from the analysis of an imported file, it
  fails with a TypeError once the file is found.
\<close>

theorem requireWireStateFile_reads_other_key:
  "cache_has [js ''a.state'' \<mapsto> registered] (js ''a.state'')
   \<and> cache_get [js ''a.state'' \<mapsto> registered] (js ''a.state'') = Some registered
   \<and> fst (requireWireStateFile makePromise
            (\<lambda>p. if p = js ''lib/a.state'' then IsFile else StatFails (js ''ENOENT''))
            (js ''a.state'') (Some [js ''a.state'' \<mapsto> registered]) [js ''lib''])
       = Inr None
   \<and> fst (requireWireStateFile makePromise
            (\<lambda>p. if p = js ''lib/a.state'' then IsFile else StatFails (js ''ENOENT''))
            (js ''a.state'') (Some Map.empty) [js ''lib''])
       = Inr None
   \<and> requireWireStateFile makePromise
            (\<lambda>p. if p = js ''lib/a.state'' then IsFile else StatFails (js ''ENOENT''))
            (js ''a.state'') None [js ''lib'']
       = (Inl [TypeError], None)"
proof -
  have p: "path_join (js ''lib'') (js ''a.state'') = js ''lib/a.state''"
    by code_simp
  have n: "js ''lib/a.state'' \<noteq> js ''a.state''" "js ''lib/a.state'' \<noteq> []" "js ''lib'' \<noteq> []"
    by (simp_all add: js_def)
  have f: "firstMatchedFileName
             (\<lambda>p. if p = js ''lib/a.state'' then IsFile else StatFails (js ''ENOENT''))
             (js ''a.state'') [js ''lib''] = Inr (js ''lib/a.state'')"
    using n by (simp add: firstMatchedFileName_def fileNames_def searchDirs_def p matchResult_def at_def)
  show ?thesis
    using n by (simp add: requireWireStateFile_def f Let_def cache_has_def cache_get_def cache_set_def)
qed

section \<open>C2: event normalization\<close>

text \<open>
  C2. Event normalization is idempotent; the events \<open>a,b\<close> and \<open>b, a\<close> have the same
  normal form; the transition check of a machine or state reports a duplicate exactly when
  two transitions have equal normalized events, and the event-protocol check does so by the
  same normalization of the protocols' event names.
\<close>

theorem event_normalization_idempotent:
  "normalizeEventName (normalizeEventName s) = normalizeEventName s
   \<and> normalizeEventName (js ''a,b'') = normalizeEventName (js ''b, a'')
   \<and> ((\<exists>e l c. checkTransitions fileName ts = Some (SemanticError (DuplicateTransition e) fileName l c))
        = (\<not> distinct (map (\<lambda>t. normalizeEventName (t_event t)) ts)))
   \<and> ((checkTransitions fileName ts = None) = distinct (map (\<lambda>t. normalizeEventName (t_event t)) ts))
   \<and> ((\<exists>e l c. checkEventProtocols fileName ps = Some (SemanticError (DuplicateEventProtocol e) fileName l c))
        = (\<not> distinct (map (\<lambda>p. normalizeEventName (ep_eventName p)) ps)))
   \<and> ((checkEventProtocols fileName ps = None) = distinct (map (\<lambda>p. normalizeEventName (ep_eventName p)) ps))"
proof -
  have ab: "normalizeEventName (js ''a,b'') = normalizeEventName (js ''b, a'')"
    by code_simp
  have pe: "map protocolEvent ps = map (\<lambda>p. normalizeEventName (ep_eventName p)) ps"
    by (simp add: protocolEvent_normalizeEventName)
  have t1: "(\<exists>e l c. checkTransitions fileName ts = Some (SemanticError (DuplicateTransition e) fileName l c))
        = (\<not> distinct (map (\<lambda>t. normalizeEventName (t_event t)) ts))"
    using checkTransitions_Some[of ts fileName] checkTransitions_None_iff[of fileName ts] by auto
  have p1: "(\<exists>e l c. checkEventProtocols fileName ps = Some (SemanticError (DuplicateEventProtocol e) fileName l c))
        = (\<not> distinct (map (\<lambda>p. normalizeEventName (ep_eventName p)) ps))"
    using checkEventProtocols_Some[of ps fileName] checkEventProtocols_None_iff[of fileName ps]
    unfolding pe by auto
  show ?thesis
    using normalizeEventName_fixed[of s] ab t1 p1 checkTransitions_None_iff[of fileName ts]
      checkEventProtocols_None_iff[of fileName ps] unfolding pe by blast
qed

text \<open>The transitions \<open>a,b\<close> and \<open>b, a\<close> of scenario S4 collide.\<close>

theorem event_normalization_idempotent_witness:
  "\<exists>e l c. checkTransitions (js ''app.state'')
       [\<lparr>t_event = js ''a,b'', t_target = js ''B'', t_line = 2, t_column = 3\<rparr>,
        \<lparr>t_event = js ''b, a'', t_target = js ''B'', t_line = 3, t_column = 3\<rparr>]
     = Some (SemanticError (DuplicateTransition e) (js ''app.state'') l c)"
proof -
  have h: "\<not> distinct (map (\<lambda>t. normalizeEventName (t_event t))
       [\<lparr>t_event = js ''a,b'', t_target = js ''B'', t_line = 2, t_column = 3\<rparr>,
        \<lparr>t_event = js ''b, a'', t_target = js ''B'', t_line = 3, t_column = 3\<rparr>])"
    by code_simp
  show ?thesis
    using h event_normalization_idempotent[of "js ''a,b''" "js ''app.state''"
       "[\<lparr>t_event = js ''a,b'', t_target = js ''B'', t_line = 2, t_column = 3\<rparr>,
        \<lparr>t_event = js ''b, a'', t_target = js ''B'', t_line = 3, t_column = 3\<rparr>]" "[]"]
    by blast
qed

section \<open>C3: duplicates\<close>

lemma occurs_again:
  assumes "key n \<notin> key ` set pre" "2 \<le> count_list (map key (pre @ n # rest)) (key n)"
  shows "key n \<in> key ` set rest"
proof -
  from assms(1) have "count_list (map key pre) (key n) = 0"
    by (simp add: count_list_0_iff)
  with assms(2) have "0 < count_list (map key rest) (key n)" by simp
  then have "key n \<in> set (map key rest)"
    using count_list_0_iff[of "map key rest" "key n"] by auto
  then show ?thesis by simp
qed

lemma checkMachineIds_Some:
  assumes "\<not> distinct (map m_id machines)"
  shows "\<exists>pre n rest. machines = pre @ n # rest \<and> m_id n \<notin> m_id ` set pre
           \<and> m_id n \<in> m_id ` set rest
           \<and> (\<forall>p\<in>set pre. count_list (map m_id machines) (m_id p) = 1)
           \<and> checkMachineIds fileName machines
               = Some (SemanticError (DuplicateMachine (m_id n)) fileName (m_line n) (m_column n))"
proof -
  from firstDuplicate_nodes[OF assms] obtain pre n rest where
    h: "machines = pre @ n # rest" "m_id n \<notin> m_id ` set pre"
       "2 \<le> count_list (map m_id machines) (m_id n)"
       "\<forall>p\<in>set pre. count_list (map m_id machines) (m_id p) = 1"
       "firstDuplicate (map m_id machines) = Some (m_id n)"
       "List.find (\<lambda>m. m_id m = m_id n) machines = Some n"
    by blast
  have "checkMachineIds fileName machines
               = Some (SemanticError (DuplicateMachine (m_id n)) fileName (m_line n) (m_column n))"
    by (simp add: checkMachineIds_def h(5,6))
  moreover have "m_id n \<in> m_id ` set rest"
    using occurs_again[of m_id n pre rest] h(1,2,3) by simp
  ultimately show ?thesis using h(1,2,4) by blast
qed

lemma checkTransitions_first:
  assumes "\<not> distinct (map (\<lambda>t. normalizeEventName (t_event t)) ts)"
  shows "\<exists>pre n rest. ts = pre @ n # rest
           \<and> normalizeEventName (t_event n) \<notin> (\<lambda>t. normalizeEventName (t_event t)) ` set pre
           \<and> normalizeEventName (t_event n) \<in> (\<lambda>t. normalizeEventName (t_event t)) ` set rest
           \<and> (\<forall>p\<in>set pre. count_list (map (\<lambda>t. normalizeEventName (t_event t)) ts)
                  (normalizeEventName (t_event p)) = 1)
           \<and> checkTransitions fileName ts
               = Some (SemanticError (DuplicateTransition (t_event n)) fileName (t_line n) (t_column n))"
proof -
  from checkTransitions_Some[OF assms, of fileName] obtain pre n rest where
    h: "ts = pre @ n # rest"
       "normalizeEventName (t_event n) \<notin> (\<lambda>t. normalizeEventName (t_event t)) ` set pre"
       "2 \<le> count_list (map (\<lambda>t. normalizeEventName (t_event t)) ts) (normalizeEventName (t_event n))"
       "\<forall>p\<in>set pre. count_list (map (\<lambda>t. normalizeEventName (t_event t)) ts)
                  (normalizeEventName (t_event p)) = 1"
       "checkTransitions fileName ts
               = Some (SemanticError (DuplicateTransition (t_event n)) fileName (t_line n) (t_column n))"
    by blast
  have "normalizeEventName (t_event n) \<in> (\<lambda>t. normalizeEventName (t_event t)) ` set rest"
    using occurs_again[of "\<lambda>t. normalizeEventName (t_event t)" n pre rest] h(1,2,3) by simp
  with h(1,2,4,5) show ?thesis by blast
qed

lemma analyzeScopeNode_duplicate:
  assumes "checkMachineIds (sc_fileName scopeNode) (sc_machines scopeNode) = Some e"
  shows "analyzeScopeNode resolveState scopeNode copt = ((scopeNode, Some [e]), [])"
  using assms by (simp add: analyzeScopeNode_def)

lemma analyzeMachineNode_duplicate_transition:
  assumes "checkStateIds (sc_fileName scopeNode) (m_states m) = None"
    and "checkTransitions (sc_fileName scopeNode) (m_transitions m) = Some e"
  shows "analyzeMachineNode resolveState copt scopeNode m = (m, Some [e])"
  using assms by (simp add: analyzeMachineNode_def)

lemma analyzeStateNode_duplicate_transition:
  assumes "\<not> (s_stateType s = Transient \<and> s_states s \<noteq> [])"
    and "checkStateIds (sc_fileName scopeNode) (s_states s) = None"
    and "checkTransitions (sc_fileName scopeNode) (s_transitions s) = Some e"
  shows "snd (analyzeStateNode resolveState copt scopeNode s) = Some [e]"
proof (cases s)
  case (StateNode ident stateType initial line column states transitions eventProtocols useDirective)
  with assms show ?thesis by (auto simp: Let_def)
qed

text \<open>
  C3, as the code has it. A scope with a duplicated machine ID is rejected with the
  SemanticError \<open>Duplicate machine\<close>, and a machine or state with two transitions of equal
  normalized events, which passes the checks made before (a state is not a transient
  state with children; the children's IDs are distinct), with the SemanticError
  \<open>Duplicate transition\<close>. The error is located at the first occurrence of the duplicate:
  at a node whose key occurs again later and not before, where every node before it has a
  key that occurs once.
\<close>

theorem duplicate_located_at_first_occurrence:
  "(\<not> distinct (map m_id (sc_machines scopeNode)) \<longrightarrow>
      (\<exists>pre n rest. sc_machines scopeNode = pre @ n # rest
         \<and> m_id n \<notin> m_id ` set pre \<and> m_id n \<in> m_id ` set rest
         \<and> (\<forall>p\<in>set pre. count_list (map m_id (sc_machines scopeNode)) (m_id p) = 1)
         \<and> analyzeScopeNode resolveState scopeNode copt
             = ((scopeNode, Some [SemanticError (DuplicateMachine (m_id n))
                                    (sc_fileName scopeNode) (m_line n) (m_column n)]), [])))
   \<and> (distinct (map s_id (m_states m))
       \<and> \<not> distinct (map (\<lambda>t. normalizeEventName (t_event t)) (m_transitions m)) \<longrightarrow>
      (\<exists>pre n rest. m_transitions m = pre @ n # rest
         \<and> normalizeEventName (t_event n) \<notin> (\<lambda>t. normalizeEventName (t_event t)) ` set pre
         \<and> normalizeEventName (t_event n) \<in> (\<lambda>t. normalizeEventName (t_event t)) ` set rest
         \<and> (\<forall>p\<in>set pre. count_list (map (\<lambda>t. normalizeEventName (t_event t)) (m_transitions m))
                (normalizeEventName (t_event p)) = 1)
         \<and> analyzeMachineNode resolveState copt scopeNode m
             = (m, Some [SemanticError (DuplicateTransition (t_event n)) (sc_fileName scopeNode)
                           (t_line n) (t_column n)])))
   \<and> (\<not> (s_stateType s = Transient \<and> s_states s \<noteq> [])
       \<and> distinct (map s_id (s_states s))
       \<and> \<not> distinct (map (\<lambda>t. normalizeEventName (t_event t)) (s_transitions s)) \<longrightarrow>
      (\<exists>pre n rest. s_transitions s = pre @ n # rest
         \<and> normalizeEventName (t_event n) \<notin> (\<lambda>t. normalizeEventName (t_event t)) ` set pre
         \<and> normalizeEventName (t_event n) \<in> (\<lambda>t. normalizeEventName (t_event t)) ` set rest
         \<and> (\<forall>p\<in>set pre. count_list (map (\<lambda>t. normalizeEventName (t_event t)) (s_transitions s))
                (normalizeEventName (t_event p)) = 1)
         \<and> snd (analyzeStateNode resolveState copt scopeNode s)
             = Some [SemanticError (DuplicateTransition (t_event n)) (sc_fileName scopeNode)
                       (t_line n) (t_column n)]))"
proof (intro conjI impI)
  assume "\<not> distinct (map m_id (sc_machines scopeNode))"
  from checkMachineIds_Some[OF this, of "sc_fileName scopeNode"] obtain pre n rest where
    h: "sc_machines scopeNode = pre @ n # rest" "m_id n \<notin> m_id ` set pre"
       "m_id n \<in> m_id ` set rest"
       "\<forall>p\<in>set pre. count_list (map m_id (sc_machines scopeNode)) (m_id p) = 1"
       "checkMachineIds (sc_fileName scopeNode) (sc_machines scopeNode)
          = Some (SemanticError (DuplicateMachine (m_id n)) (sc_fileName scopeNode)
                    (m_line n) (m_column n))"
    by blast
  from analyzeScopeNode_duplicate[OF h(5)] h(1-4)
  show "\<exists>pre n rest. sc_machines scopeNode = pre @ n # rest
         \<and> m_id n \<notin> m_id ` set pre \<and> m_id n \<in> m_id ` set rest
         \<and> (\<forall>p\<in>set pre. count_list (map m_id (sc_machines scopeNode)) (m_id p) = 1)
         \<and> analyzeScopeNode resolveState scopeNode copt
             = ((scopeNode, Some [SemanticError (DuplicateMachine (m_id n))
                                    (sc_fileName scopeNode) (m_line n) (m_column n)]), [])"
    by blast
next
  assume a: "distinct (map s_id (m_states m))
       \<and> \<not> distinct (map (\<lambda>t. normalizeEventName (t_event t)) (m_transitions m))"
  then have ids: "checkStateIds (sc_fileName scopeNode) (m_states m) = None"
    by (simp add: checkStateIds_None_iff)
  from a checkTransitions_first[of "m_transitions m" "sc_fileName scopeNode"] obtain pre n rest where
    h: "m_transitions m = pre @ n # rest"
       "normalizeEventName (t_event n) \<notin> (\<lambda>t. normalizeEventName (t_event t)) ` set pre"
       "normalizeEventName (t_event n) \<in> (\<lambda>t. normalizeEventName (t_event t)) ` set rest"
       "\<forall>p\<in>set pre. count_list (map (\<lambda>t. normalizeEventName (t_event t)) (m_transitions m))
                (normalizeEventName (t_event p)) = 1"
       "checkTransitions (sc_fileName scopeNode) (m_transitions m)
          = Some (SemanticError (DuplicateTransition (t_event n)) (sc_fileName scopeNode)
                    (t_line n) (t_column n))"
    by blast
  from analyzeMachineNode_duplicate_transition[OF ids h(5)] h(1-4)
  show "\<exists>pre n rest. m_transitions m = pre @ n # rest
         \<and> normalizeEventName (t_event n) \<notin> (\<lambda>t. normalizeEventName (t_event t)) ` set pre
         \<and> normalizeEventName (t_event n) \<in> (\<lambda>t. normalizeEventName (t_event t)) ` set rest
         \<and> (\<forall>p\<in>set pre. count_list (map (\<lambda>t. normalizeEventName (t_event t)) (m_transitions m))
                (normalizeEventName (t_event p)) = 1)
         \<and> analyzeMachineNode resolveState copt scopeNode m
             = (m, Some [SemanticError (DuplicateTransition (t_event n)) (sc_fileName scopeNode)
                           (t_line n) (t_column n)])"
    by blast
next
  assume a: "\<not> (s_stateType s = Transient \<and> s_states s \<noteq> [])
       \<and> distinct (map s_id (s_states s))
       \<and> \<not> distinct (map (\<lambda>t. normalizeEventName (t_event t)) (s_transitions s))"
  then have tr: "\<not> (s_stateType s = Transient \<and> s_states s \<noteq> [])"
    and ids: "checkStateIds (sc_fileName scopeNode) (s_states s) = None"
    by (simp_all add: checkStateIds_None_iff)
  from a checkTransitions_first[of "s_transitions s" "sc_fileName scopeNode"] obtain pre n rest where
    h: "s_transitions s = pre @ n # rest"
       "normalizeEventName (t_event n) \<notin> (\<lambda>t. normalizeEventName (t_event t)) ` set pre"
       "normalizeEventName (t_event n) \<in> (\<lambda>t. normalizeEventName (t_event t)) ` set rest"
       "\<forall>p\<in>set pre. count_list (map (\<lambda>t. normalizeEventName (t_event t)) (s_transitions s))
                (normalizeEventName (t_event p)) = 1"
       "checkTransitions (sc_fileName scopeNode) (s_transitions s)
          = Some (SemanticError (DuplicateTransition (t_event n)) (sc_fileName scopeNode)
                    (t_line n) (t_column n))"
    by blast
  from analyzeStateNode_duplicate_transition[OF tr ids h(5)] h(1-4)
  show "\<exists>pre n rest. s_transitions s = pre @ n # rest
         \<and> normalizeEventName (t_event n) \<notin> (\<lambda>t. normalizeEventName (t_event t)) ` set pre
         \<and> normalizeEventName (t_event n) \<in> (\<lambda>t. normalizeEventName (t_event t)) ` set rest
         \<and> (\<forall>p\<in>set pre. count_list (map (\<lambda>t. normalizeEventName (t_event t)) (s_transitions s))
                (normalizeEventName (t_event p)) = 1)
         \<and> snd (analyzeStateNode resolveState copt scopeNode s)
             = Some [SemanticError (DuplicateTransition (t_event n)) (sc_fileName scopeNode)
                       (t_line n) (t_column n)]"
    by blast
qed

text \<open>
  Scenario S3: the state \<open>A\<close> with the transitions \<open>x -> B\<close> of lines 2 and 3 is rejected at
  line 2, and a scope with the machine \<open>M\<close> at lines 1 and 5 at line 1: at the first
  occurrence, not at the second as the claim has it.
\<close>

theorem duplicate_located_at_first_occurrence_counterexample:
  "snd (analyzeStateNode (\<lambda>t. True) None
       \<lparr>sc_fileName = js ''app.state'', sc_imports = [], sc_machines = []\<rparr>
       (StateNode (js ''A'') Atomic True 1 1 []
          [\<lparr>t_event = js ''x'', t_target = js ''B'', t_line = 2, t_column = 3\<rparr>,
           \<lparr>t_event = js ''x'', t_target = js ''B'', t_line = 3, t_column = 3\<rparr>] [] None))
     = Some [SemanticError (DuplicateTransition (js ''x'')) (js ''app.state'') 2 3]
   \<and> snd (fst (analyzeScopeNode (\<lambda>t. True)
       \<lparr>sc_fileName = js ''app.state'', sc_imports = [],
        sc_machines =
          [\<lparr>m_id = js ''M'', m_line = 1, m_column = 1, m_states = [], m_transitions = [],
            m_eventProtocols = []\<rparr>,
           \<lparr>m_id = js ''M'', m_line = 5, m_column = 1, m_states = [], m_transitions = [],
            m_eventProtocols = []\<rparr>]\<rparr> None))
     = Some [SemanticError (DuplicateMachine (js ''M'')) (js ''app.state'') 1 1]"
  by code_simp

theorem duplicate_located_at_first_occurrence_witness:
  "\<exists>n::MachineNode. snd (fst (analyzeScopeNode (\<lambda>t. True)
       \<lparr>sc_fileName = js ''app.state'', sc_imports = [],
        sc_machines =
          [\<lparr>m_id = js ''M'', m_line = 1, m_column = 1, m_states = [], m_transitions = [],
            m_eventProtocols = []\<rparr>,
           \<lparr>m_id = js ''M'', m_line = 5, m_column = 1, m_states = [], m_transitions = [],
            m_eventProtocols = []\<rparr>]\<rparr> None))
     = Some [SemanticError (DuplicateMachine (m_id n)) (js ''app.state'') (m_line n) (m_column n)]"
proof -
  let ?sc = "\<lparr>sc_fileName = js ''app.state'', sc_imports = [],
        sc_machines =
          [\<lparr>m_id = js ''M'', m_line = 1, m_column = 1, m_states = [], m_transitions = [],
            m_eventProtocols = []\<rparr>,
           \<lparr>m_id = js ''M'', m_line = 5, m_column = 1, m_states = [], m_transitions = [],
            m_eventProtocols = []\<rparr>]\<rparr>"
  have h: "\<not> distinct (map m_id (sc_machines ?sc))"
    by simp
  from duplicate_located_at_first_occurrence[of ?sc "\<lambda>t. True" None, THEN conjunct1, THEN mp, OF h]
  obtain pre n rest where "sc_machines ?sc = pre @ n # rest" "m_id n \<notin> m_id ` set pre"
    "m_id n \<in> m_id ` set rest"
    "\<forall>p\<in>set pre. count_list (map m_id (sc_machines ?sc)) (m_id p) = 1"
    "analyzeScopeNode (\<lambda>t. True) ?sc None
      = ((?sc, Some [SemanticError (DuplicateMachine (m_id n)) (sc_fileName ?sc) (m_line n)
                       (m_column n)]), [])"
    by (elim exE conjE)
  from this(5) have r: "snd (fst (analyzeScopeNode (\<lambda>t. True) ?sc None))
      = Some [SemanticError (DuplicateMachine (m_id n)) (js ''app.state'') (m_line n) (m_column n)]"
    by (simp only: fst_conv snd_conv ScopeNode.simps)
  show ?thesis by (rule exI[of _ n]) (rule r)
qed

section \<open>C4: the initial state\<close>

lemma descendants_one_initial:
  assumes "analyzeStateNode resolveState copt scopeNode s = (s', None)"
    and "d \<in> set (descendants s')" and "s_states d \<noteq> []"
  shows "length (filter s_initial (s_states d)) = 1"
proof -
  from descendants_analysed[OF assms(1,2)] obtain d0 where
    "analyzeStateNode resolveState copt scopeNode d0 = (d, None)" by blast
  from analyzeStateNode_one_initial[OF this assms(3)] show ?thesis .
qed

lemma analyzeMachineNode_states:
  assumes "analyzeMachineNode resolveState copt scopeNode m = (m', None)"
  shows "length (filter s_initial (m_states m)) \<le> 1
     \<and> promise_all (map (\<lambda>c. outcome (analyzeStateNode resolveState copt scopeNode c))
           (defaultInitial (m_states m))) = Inr (m_states m')"
  using analyzeMachineNode_fulfilled[OF assms] by (auto simp: checkInitial_None_iff)

lemma analyzeMachineNode_descendants:
  assumes "analyzeMachineNode resolveState copt scopeNode m = (m', None)"
    and "c \<in> set (m_states m')" and "d \<in> set (descendants c)" and "s_states d \<noteq> []"
  shows "length (filter s_initial (s_states d)) = 1"
proof -
  from analyzeMachineNode_states[OF assms(1)]
  have p: "promise_all (map (\<lambda>c. outcome (analyzeStateNode resolveState copt scopeNode c))
           (defaultInitial (m_states m))) = Inr (m_states m')" by simp
  from assms(2) obtain i where i: "i < length (m_states m')" "c = m_states m' ! i"
    by (auto simp: in_set_conv_nth)
  from promise_all_outcome[OF p] i
  have "analyzeStateNode resolveState copt scopeNode (defaultInitial (m_states m) ! i) = (c, None)"
    by auto
  from descendants_one_initial[OF this assms(3,4)] show ?thesis .
qed

text \<open>
  C4, as the code has it. A state or machine that passes the checks made before the check
  of the initial children (for a state: it is not a transient state with children; for
  both: the children's IDs, the normalized events of the transitions and of the event
  protocols are distinct and every transition target resolves) and has more than one
  child marked initial is rejected with the SemanticError
  \<open>Only one child state can be marked as initial\<close>, located at the second such child.
  Where the analysis succeeds: if the node had children and none was marked initial, the
  first child is marked initial; every state of the analysed tree that has children, and
  the machine if it has states, has exactly one child marked initial.
\<close>

theorem initial_state_rule:
  "(\<not> (s_stateType s = Transient \<and> s_states s \<noteq> [])
      \<and> distinct (map s_id (s_states s))
      \<and> distinct (map (\<lambda>t. normalizeEventName (t_event t)) (s_transitions s))
      \<and> distinct (map (\<lambda>p. normalizeEventName (ep_eventName p)) (s_eventProtocols s))
      \<and> (\<forall>t\<in>set (s_transitions s). resolveState t)
      \<and> 1 < length (filter s_initial (s_states s))
     \<longrightarrow> snd (analyzeStateNode resolveState copt scopeNode s)
           = Some [SemanticError (OneInitialOnlyState (s_id s)) (sc_fileName scopeNode)
                     (s_line (filter s_initial (s_states s) ! 1))
                     (s_column (filter s_initial (s_states s) ! 1))])
   \<and> (distinct (map s_id (m_states m))
      \<and> distinct (map (\<lambda>t. normalizeEventName (t_event t)) (m_transitions m))
      \<and> distinct (map (\<lambda>p. normalizeEventName (ep_eventName p)) (m_eventProtocols m))
      \<and> (\<forall>t\<in>set (m_transitions m). resolveState t)
      \<and> 1 < length (filter s_initial (m_states m))
     \<longrightarrow> snd (analyzeMachineNode resolveState copt scopeNode m)
           = Some [SemanticError (OneInitialOnlyMachine (m_id m)) (sc_fileName scopeNode)
                     (s_line (filter s_initial (m_states m) ! 1))
                     (s_column (filter s_initial (m_states m) ! 1))])
   \<and> (analyzeStateNode resolveState copt scopeNode s = (s', None) \<longrightarrow>
        (s_states s \<noteq> [] \<and> \<not> list_ex s_initial (s_states s) \<longrightarrow>
           s_states s' \<noteq> [] \<and> s_initial (hd (s_states s'))
           \<and> s_id (hd (s_states s')) = s_id (hd (s_states s)))
        \<and> (\<forall>d\<in>set (descendants s'). s_states d \<noteq> [] \<longrightarrow>
              length (filter s_initial (s_states d)) = 1))
   \<and> (analyzeMachineNode resolveState copt scopeNode m = (m', None) \<longrightarrow>
        (m_states m \<noteq> [] \<and> \<not> list_ex s_initial (m_states m) \<longrightarrow>
           m_states m' \<noteq> [] \<and> s_initial (hd (m_states m'))
           \<and> s_id (hd (m_states m')) = s_id (hd (m_states m)))
        \<and> (m_states m' \<noteq> [] \<longrightarrow> length (filter s_initial (m_states m')) = 1)
        \<and> (\<forall>c\<in>set (m_states m'). \<forall>d\<in>set (descendants c). s_states d \<noteq> [] \<longrightarrow>
              length (filter s_initial (s_states d)) = 1))"
proof (intro conjI impI ballI)
  assume a: "\<not> (s_stateType s = Transient \<and> s_states s \<noteq> [])
      \<and> distinct (map s_id (s_states s))
      \<and> distinct (map (\<lambda>t. normalizeEventName (t_event t)) (s_transitions s))
      \<and> distinct (map (\<lambda>p. normalizeEventName (ep_eventName p)) (s_eventProtocols s))
      \<and> (\<forall>t\<in>set (s_transitions s). resolveState t)
      \<and> 1 < length (filter s_initial (s_states s))"
  have pe: "map protocolEvent (s_eventProtocols s)
      = map (\<lambda>p. normalizeEventName (ep_eventName p)) (s_eventProtocols s)"
    by (simp add: protocolEvent_normalizeEventName)
  show "snd (analyzeStateNode resolveState copt scopeNode s)
           = Some [SemanticError (OneInitialOnlyState (s_id s)) (sc_fileName scopeNode)
                     (s_line (filter s_initial (s_states s) ! 1))
                     (s_column (filter s_initial (s_states s) ! 1))]"
    using a by (intro analyzeStateNode_initial_error)
      (simp_all add: checkStateIds_None_iff checkTransitions_None_iff
         checkEventProtocols_None_iff checkTargets_None_iff pe)
next
  assume a: "distinct (map s_id (m_states m))
      \<and> distinct (map (\<lambda>t. normalizeEventName (t_event t)) (m_transitions m))
      \<and> distinct (map (\<lambda>p. normalizeEventName (ep_eventName p)) (m_eventProtocols m))
      \<and> (\<forall>t\<in>set (m_transitions m). resolveState t)
      \<and> 1 < length (filter s_initial (m_states m))"
  have pe: "map protocolEvent (m_eventProtocols m)
      = map (\<lambda>p. normalizeEventName (ep_eventName p)) (m_eventProtocols m)"
    by (simp add: protocolEvent_normalizeEventName)
  show "snd (analyzeMachineNode resolveState copt scopeNode m)
           = Some [SemanticError (OneInitialOnlyMachine (m_id m)) (sc_fileName scopeNode)
                     (s_line (filter s_initial (m_states m) ! 1))
                     (s_column (filter s_initial (m_states m) ! 1))]"
    using a by (intro analyzeMachineNode_initial_error)
      (simp_all add: checkStateIds_None_iff checkTransitions_None_iff
         checkEventProtocols_None_iff checkTargets_None_iff pe)
next
  assume "analyzeStateNode resolveState copt scopeNode s = (s', None)"
    and "s_states s \<noteq> [] \<and> \<not> list_ex s_initial (s_states s)"
  then show "s_states s' \<noteq> []" "s_initial (hd (s_states s'))"
    "s_id (hd (s_states s')) = s_id (hd (s_states s))"
    using analyzeStateNode_first_initial[of resolveState copt scopeNode s s'] by simp_all
next
  fix d
  assume "analyzeStateNode resolveState copt scopeNode s = (s', None)"
    and "d \<in> set (descendants s')" and "s_states d \<noteq> []"
  then show "length (filter s_initial (s_states d)) = 1"
    by (rule descendants_one_initial)
next
  assume a: "analyzeMachineNode resolveState copt scopeNode m = (m', None)"
    and b: "m_states m \<noteq> [] \<and> \<not> list_ex s_initial (m_states m)"
  from analyzeMachineNode_states[OF a] b
  show "m_states m' \<noteq> []" "s_initial (hd (m_states m'))"
    "s_id (hd (m_states m')) = s_id (hd (m_states m))"
    using analysed_children_first_initial[of resolveState copt scopeNode "m_states m" "m_states m'"]
    by simp_all
next
  assume a: "analyzeMachineNode resolveState copt scopeNode m = (m', None)"
    and b: "m_states m' \<noteq> []"
  from analyzeMachineNode_states[OF a] b
  show "length (filter s_initial (m_states m')) = 1"
    using analysed_children_one_initial[of resolveState copt scopeNode "m_states m" "m_states m'"]
    by simp
next
  fix c d
  assume "analyzeMachineNode resolveState copt scopeNode m = (m', None)"
    and "c \<in> set (m_states m')" and "d \<in> set (descendants c)" and "s_states d \<noteq> []"
  then show "length (filter s_initial (s_states d)) = 1"
    by (rule analyzeMachineNode_descendants)
qed

text \<open>
  Scenario S2 (\<open>A*\<close> with the child \<open>B\<close>, then \<open>C\<close>): \<open>B\<close> becomes the initial child of \<open>A\<close>. A
  state \<open>P\<close> with the children \<open>X*\<close> and \<open>Y*\<close> is rejected at \<open>Y\<close>.
\<close>

theorem initial_state_rule_witness:
  "analyzeMachineNode (\<lambda>t. True) None
       \<lparr>sc_fileName = js ''app.state'', sc_imports = [], sc_machines = []\<rparr>
       \<lparr>m_id = js ''app'', m_line = 1, m_column = 1,
        m_states = [StateNode (js ''A'') Atomic True 1 1
                      [StateNode (js ''B'') Atomic False 2 3 [] [] [] None] [] [] None,
                    StateNode (js ''C'') Atomic False 3 1 [] [] [] None],
        m_transitions = [], m_eventProtocols = []\<rparr>
     = (\<lparr>m_id = js ''app'', m_line = 1, m_column = 1,
        m_states = [StateNode (js ''A'') Compound True 1 1
                      [StateNode (js ''B'') Atomic True 2 3 [] [] [] None] [] [] None,
                    StateNode (js ''C'') Atomic False 3 1 [] [] [] None],
        m_transitions = [], m_eventProtocols = []\<rparr>, None)
   \<and> snd (analyzeStateNode (\<lambda>t. True) None
       \<lparr>sc_fileName = js ''app.state'', sc_imports = [], sc_machines = []\<rparr>
       (StateNode (js ''P'') Atomic True 1 1
          [StateNode (js ''X'') Atomic True 2 3 [] [] [] None,
           StateNode (js ''Y'') Atomic True 3 3 [] [] [] None] [] [] None))
     = Some [SemanticError (OneInitialOnlyState (js ''P'')) (js ''app.state'') 3 3]"
proof -
  have r: "analyzeMachineNode (\<lambda>t. True) None
       \<lparr>sc_fileName = js ''app.state'', sc_imports = [], sc_machines = []\<rparr>
       \<lparr>m_id = js ''app'', m_line = 1, m_column = 1,
        m_states = [StateNode (js ''A'') Atomic True 1 1
                      [StateNode (js ''B'') Atomic False 2 3 [] [] [] None] [] [] None,
                    StateNode (js ''C'') Atomic False 3 1 [] [] [] None],
        m_transitions = [], m_eventProtocols = []\<rparr>
     = (\<lparr>m_id = js ''app'', m_line = 1, m_column = 1,
        m_states = [StateNode (js ''A'') Compound True 1 1
                      [StateNode (js ''B'') Atomic True 2 3 [] [] [] None] [] [] None,
                    StateNode (js ''C'') Atomic False 3 1 [] [] [] None],
        m_transitions = [], m_eventProtocols = []\<rparr>, None)"
    by code_simp
  have h: "js ''X'' \<noteq> js ''Y''"
    by (simp add: js_def)
  show ?thesis
    using r h initial_state_rule[of
      "StateNode (js ''P'') Atomic True 1 1
          [StateNode (js ''X'') Atomic True 2 3 [] [] [] None,
           StateNode (js ''Y'') Atomic True 3 3 [] [] [] None] [] [] None"
      "\<lambda>t. True" None "\<lparr>sc_fileName = js ''app.state'', sc_imports = [], sc_machines = []\<rparr>"
      "\<lparr>m_id = js ''app'', m_line = 1, m_column = 1,
        m_states = [StateNode (js ''A'') Atomic True 1 1
                      [StateNode (js ''B'') Atomic False 2 3 [] [] [] None] [] [] None,
                    StateNode (js ''C'') Atomic False 3 1 [] [] [] None],
        m_transitions = [], m_eventProtocols = []\<rparr>"
      "StateNode (js ''P'') Atomic True 1 1 [] [] [] None"
      "\<lparr>m_id = js ''app'', m_line = 1, m_column = 1,
        m_states = [StateNode (js ''A'') Compound True 1 1
                      [StateNode (js ''B'') Atomic True 2 3 [] [] [] None] [] [] None,
                    StateNode (js ''C'') Atomic False 3 1 [] [] [] None],
        m_transitions = [], m_eventProtocols = []\<rparr>"]
    by simp
qed

text \<open>
  The claim as stated fails: a transient state with two children marked initial is
  rejected at its first child, by the check of transient states, which comes first; and a
  machine without states is analysed successfully and has no initial child.
\<close>

theorem initial_state_rule_counterexample:
  "snd (analyzeStateNode (\<lambda>t. True) None
       \<lparr>sc_fileName = js ''app.state'', sc_imports = [], sc_machines = []\<rparr>
       (StateNode (js ''T'') Transient True 1 1
          [StateNode (js ''X'') Atomic True 2 3 [] [] [] None,
           StateNode (js ''Y'') Atomic True 3 3 [] [] [] None] [] [] None))
     = Some [SemanticError (TransientWithChildren (js ''T'')) (js ''app.state'') 2 3]
   \<and> analyzeMachineNode (\<lambda>t. True) None
       \<lparr>sc_fileName = js ''app.state'', sc_imports = [], sc_machines = []\<rparr>
       \<lparr>m_id = js ''M'', m_line = 1, m_column = 1, m_states = [], m_transitions = [],
        m_eventProtocols = []\<rparr>
     = (\<lparr>m_id = js ''M'', m_line = 1, m_column = 1, m_states = [], m_transitions = [],
        m_eventProtocols = []\<rparr>, None)
   \<and> length (filter s_initial (m_states
        \<lparr>m_id = js ''M'', m_line = 1, m_column = 1, m_states = [], m_transitions = [],
         m_eventProtocols = []\<rparr>)) = 0"
  by code_simp

section \<open>C5: state kinds\<close>

text \<open>
  C5. The analysis of a transient state with a child is rejected with the SemanticError
  \<open>Transient states cannot have child states\<close>, and with nothing else. Whatever becomes
  of the analysis of a state, the call leaves it compound if it was atomic with a child,
  and with the kind it had otherwise. Where the analysis succeeds, that is the kind of the
  result, and in the analysed tree no state with a child is atomic or transient.
\<close>

theorem state_kind_normalization:
  "(s_stateType s = Transient \<and> s_states s \<noteq> [] \<longrightarrow>
      analyzeStateNode resolveState copt scopeNode s
        = (s, Some [SemanticError (TransientWithChildren (s_id s)) (sc_fileName scopeNode)
                      (s_line (hd (s_states s))) (s_column (hd (s_states s)))]))
   \<and> s_stateType (fst (analyzeStateNode resolveState copt scopeNode s))
        = (if s_stateType s = Atomic \<and> s_states s \<noteq> [] then Compound else s_stateType s)
   \<and> (analyzeStateNode resolveState copt scopeNode s = (s', None) \<longrightarrow>
        s_stateType s'
          = (if s_stateType s = Atomic \<and> s_states s \<noteq> [] then Compound else s_stateType s)
        \<and> (\<forall>d\<in>set (descendants s'). s_states d \<noteq> [] \<longrightarrow>
              s_stateType d \<noteq> Atomic \<and> s_stateType d \<noteq> Transient))"
proof (intro conjI impI)
  assume "s_stateType s = Transient \<and> s_states s \<noteq> []"
  then show "analyzeStateNode resolveState copt scopeNode s
        = (s, Some [SemanticError (TransientWithChildren (s_id s)) (sc_fileName scopeNode)
                      (s_line (hd (s_states s))) (s_column (hd (s_states s)))])"
    by (simp add: analyzeStateNode_transient)
next
  show "s_stateType (fst (analyzeStateNode resolveState copt scopeNode s))
        = (if s_stateType s = Atomic \<and> s_states s \<noteq> [] then Compound else s_stateType s)"
    using analyzeStateNode_left[of resolveState copt scopeNode s] by blast
next
  assume "analyzeStateNode resolveState copt scopeNode s = (s', None)"
  then show "s_stateType s'
          = (if s_stateType s = Atomic \<and> s_states s \<noteq> [] then Compound else s_stateType s)"
    by (simp add: analyzeStateNode_fields)
next
  assume a: "analyzeStateNode resolveState copt scopeNode s = (s', None)"
  show "\<forall>d\<in>set (descendants s'). s_states d \<noteq> [] \<longrightarrow>
              s_stateType d \<noteq> Atomic \<and> s_stateType d \<noteq> Transient"
  proof (intro ballI impI)
    fix d
    assume d: "d \<in> set (descendants s')" and ne: "s_states d \<noteq> []"
    from descendants_analysed[OF a d] obtain d0 where
      d0: "analyzeStateNode resolveState copt scopeNode d0 = (d, None)" by blast
    from analyzeStateNode_children[OF d0] ne have ne0: "s_states d0 \<noteq> []" by auto
    from analyzeStateNode_fulfilled[OF d0]
    have "\<not> (s_stateType d0 = Transient \<and> s_states d0 \<noteq> [])"
      by blast
    with ne0 analyzeStateNode_fields[OF d0]
    show "s_stateType d \<noteq> Atomic \<and> s_stateType d \<noteq> Transient"
      by auto
  qed
qed

text \<open>Scenario S2: the atomic state A with the child B becomes compound.\<close>

theorem state_kind_normalization_witness:
  "analyzeStateNode (\<lambda>t. True) None
      \<lparr>sc_fileName = js ''app.state'', sc_imports = [], sc_machines = []\<rparr>
      (StateNode (js ''A'') Atomic True 1 1
         [StateNode (js ''B'') Atomic False 2 3 [] [] [] None] [] [] None)
     = (StateNode (js ''A'') Compound True 1 1
         [StateNode (js ''B'') Atomic True 2 3 [] [] [] None] [] [] None, None)
   \<and> analyzeStateNode (\<lambda>t. True) None
      \<lparr>sc_fileName = js ''app.state'', sc_imports = [], sc_machines = []\<rparr>
      (StateNode (js ''A'') Transient True 1 1
         [StateNode (js ''B'') Atomic False 2 3 [] [] [] None] [] [] None)
     = (StateNode (js ''A'') Transient True 1 1
         [StateNode (js ''B'') Atomic False 2 3 [] [] [] None] [] [] None,
        Some [SemanticError (TransientWithChildren (js ''A'')) (js ''app.state'') 2 3])"
proof -
  have r: "analyzeStateNode (\<lambda>t. True) None
      \<lparr>sc_fileName = js ''app.state'', sc_imports = [], sc_machines = []\<rparr>
      (StateNode (js ''A'') Atomic True 1 1
         [StateNode (js ''B'') Atomic False 2 3 [] [] [] None] [] [] None)
    = (StateNode (js ''A'') Compound True 1 1
         [StateNode (js ''B'') Atomic True 2 3 [] [] [] None] [] [] None, None)"
    by code_simp
  have t: "analyzeStateNode (\<lambda>t. True) None
      \<lparr>sc_fileName = js ''app.state'', sc_imports = [], sc_machines = []\<rparr>
      (StateNode (js ''A'') Transient True 1 1
         [StateNode (js ''B'') Atomic False 2 3 [] [] [] None] [] [] None)
     = (StateNode (js ''A'') Transient True 1 1
         [StateNode (js ''B'') Atomic False 2 3 [] [] [] None] [] [] None,
        Some [SemanticError (TransientWithChildren (js ''A'')) (js ''app.state'') 2 3])"
    using state_kind_normalization[where s = "StateNode (js ''A'') Transient True 1 1
         [StateNode (js ''B'') Atomic False 2 3 [] [] [] None] [] [] None"
        and resolveState = "\<lambda>t. True" and copt = None
        and scopeNode = "\<lparr>sc_fileName = js ''app.state'', sc_imports = [], sc_machines = []\<rparr>",
        THEN conjunct1]
    by simp
  from r t show ?thesis by (rule conjI)
qed

section \<open>C6: use directives\<close>

lemma find_machine_iff:
  "List.find (\<lambda>m. m_id m = x) ms \<noteq> None \<longleftrightarrow> (\<exists>m\<in>set ms. m_id m = x)"
  by (auto simp: find_None_iff)

lemma importedScopes_registered:
  assumes "\<forall>i\<in>set imps. \<exists>sc. cache_get c (i_file i) = Some (Inr sc)"
  shows "importedScopes (Some c) imps
     = Inr (map (\<lambda>i. Some (projr (the (cache_get c (i_file i))))) imps)"
proof (cases "imps = []")
  case True
  then show ?thesis by (simp add: importedScopes_def)
next
  case False
  have "map (\<lambda>importNode.
            (case cache_get c (i_file importNode) of
               None \<Rightarrow> Inr None
             | Some (Inl es) \<Rightarrow> Inl es
             | Some (Inr sc) \<Rightarrow> Inr (Some sc))) imps
      = map Inr (map (\<lambda>i. Some (projr (the (cache_get c (i_file i))))) imps)"
    using assms by auto
  then have "promise_all (map (\<lambda>importNode.
            (case cache_get c (i_file importNode) of
               None \<Rightarrow> Inr None
             | Some (Inl es) \<Rightarrow> Inl es
             | Some (Inr sc) \<Rightarrow> Inr (Some sc))) imps)
      = Inr (map (\<lambda>i. Some (projr (the (cache_get c (i_file i))))) imps)"
    by (simp only: promise_all_Inr_iff)
  with False show ?thesis by (simp add: importedScopes_def)
qed

lemma someMachine_Some:
  "someMachine x (map (\<lambda>i. Some (f i)) imps)
     = Inr (\<exists>i\<in>set imps. \<exists>m\<in>set (sc_machines (f i)). m_id m = x)"
proof (induction imps)
  case Nil
  show ?case by simp
next
  case (Cons i imps)
  show ?case
  proof (cases "\<exists>m\<in>set (sc_machines (f i)). m_id m = x")
    case True
    then have "List.find (\<lambda>m. m_id m = x) (sc_machines (f i)) \<noteq> None"
      by (simp only: find_machine_iff)
    with True show ?thesis by auto
  next
    case False
    then have "List.find (\<lambda>m. m_id m = x) (sc_machines (f i)) = None"
      using find_machine_iff[of x "sc_machines (f i)"] by blast
    with False Cons show ?thesis by auto
  qed
qed

text \<open>
  C6, as the code has it. A directive whose machine is in the state's own scope is
  accepted. Otherwise, when every import of the scope has a future in the cache under its
  path as written and that future is fulfilled, the directive is accepted exactly if the
  machine is in one of the scopes the scope imports directly; if it is in none, the
  analysis fails with the SemanticError \<open>Machine not found\<close> at the directive's location.
  A state without a directive has nothing to resolve.
\<close>

theorem use_directive_resolution:
  "((\<exists>m\<in>set (sc_machines scopeNode). m_id m = u_machineId u) \<longrightarrow>
      analyzeUseDirectiveNode copt scopeNode (Some u) = Inr (Some u))
   \<and> ((\<forall>i\<in>set (sc_imports scopeNode). \<exists>sc. cache_get c (i_file i) = Some (Inr sc)) \<longrightarrow>
      analyzeUseDirectiveNode (Some c) scopeNode (Some u)
        = (if (\<exists>m\<in>set (sc_machines scopeNode). m_id m = u_machineId u)
              \<or> (\<exists>i\<in>set (sc_imports scopeNode). \<exists>sc. cache_get c (i_file i) = Some (Inr sc)
                    \<and> (\<exists>m\<in>set (sc_machines sc). m_id m = u_machineId u))
           then Inr (Some u)
           else Inl [SemanticError (MachineNotFound (u_machineId u)) (sc_fileName scopeNode)
                        (u_line u) (u_column u)]))
   \<and> analyzeUseDirectiveNode copt scopeNode None = Inr None"
proof (intro conjI impI)
  assume "\<exists>m\<in>set (sc_machines scopeNode). m_id m = u_machineId u"
  then have "List.find (\<lambda>m. m_id m = u_machineId u) (sc_machines scopeNode) \<noteq> None"
    by (simp only: find_machine_iff)
  then show "analyzeUseDirectiveNode copt scopeNode (Some u) = Inr (Some u)"
    by (simp add: analyzeUseDirectiveNode_def)
next
  assume a: "\<forall>i\<in>set (sc_imports scopeNode). \<exists>sc. cache_get c (i_file i) = Some (Inr sc)"
  let ?own = "\<exists>m\<in>set (sc_machines scopeNode). m_id m = u_machineId u"
  let ?imp = "\<exists>i\<in>set (sc_imports scopeNode). \<exists>sc. cache_get c (i_file i) = Some (Inr sc)
                    \<and> (\<exists>m\<in>set (sc_machines sc). m_id m = u_machineId u)"
  let ?f = "\<lambda>i. projr (the (cache_get c (i_file i)))"
  have e: "?imp \<longleftrightarrow> (\<exists>i\<in>set (sc_imports scopeNode).
             \<exists>m\<in>set (sc_machines (?f i)). m_id m = u_machineId u)"
  proof
    assume ?imp
    then obtain i sc m where "i \<in> set (sc_imports scopeNode)"
      "cache_get c (i_file i) = Some (Inr sc)" "m \<in> set (sc_machines sc)"
      "m_id m = u_machineId u" by blast
    moreover from this(2) have "?f i = sc" by simp
    ultimately show "\<exists>i\<in>set (sc_imports scopeNode).
             \<exists>m\<in>set (sc_machines (?f i)). m_id m = u_machineId u" by blast
  next
    assume "\<exists>i\<in>set (sc_imports scopeNode).
             \<exists>m\<in>set (sc_machines (?f i)). m_id m = u_machineId u"
    then obtain i m where i: "i \<in> set (sc_imports scopeNode)"
      "m \<in> set (sc_machines (?f i))" "m_id m = u_machineId u" by blast
    from a i(1) obtain sc where sc: "cache_get c (i_file i) = Some (Inr sc)" by blast
    then have "?f i = sc" by simp
    with i sc show ?imp by blast
  qed
  have s: "someMachine (u_machineId u) (map (\<lambda>i. Some (?f i)) (sc_imports scopeNode)) = Inr ?imp"
    unfolding e by (rule someMachine_Some)
  show "analyzeUseDirectiveNode (Some c) scopeNode (Some u)
        = (if ?own \<or> ?imp then Inr (Some u)
           else Inl [SemanticError (MachineNotFound (u_machineId u)) (sc_fileName scopeNode)
                        (u_line u) (u_column u)])"
  proof (cases ?own)
    case True
    then have "List.find (\<lambda>m. m_id m = u_machineId u) (sc_machines scopeNode) \<noteq> None"
      by (simp only: find_machine_iff)
    with True show ?thesis by (simp add: analyzeUseDirectiveNode_def)
  next
    case False
    then have n: "List.find (\<lambda>m. m_id m = u_machineId u) (sc_machines scopeNode) = None"
      using find_machine_iff[of "u_machineId u" "sc_machines scopeNode"] by blast
    show ?thesis
    proof (cases ?imp)
      case True
      with False n s show ?thesis
        by (simp add: analyzeUseDirectiveNode_def importedScopes_registered[OF a])
    next
      case i: False
      with False n s show ?thesis
        by (simp add: analyzeUseDirectiveNode_def importedScopes_registered[OF a])
    qed
  qed
next
  show "analyzeUseDirectiveNode copt scopeNode None = Inr None"
    by (simp add: analyzeUseDirectiveNode_def)
qed

text \<open>
  Where the machine is not in the state's own scope and the cache has no future yet for the
  first import, the lookup reads the machines of undefined: a TypeError.
\<close>

lemma use_directive_unregistered:
  assumes "\<forall>m\<in>set (sc_machines scopeNode). m_id m \<noteq> u_machineId u"
    and "sc_imports scopeNode = i # imps"
    and "cache_get c (i_file i) = None"
    and "\<forall>j\<in>set imps. \<forall>es. cache_get c (i_file j) \<noteq> Some (Inl es)"
  shows "analyzeUseDirectiveNode (Some c) scopeNode (Some u) = Inl [TypeError]"
proof -
  from assms(1) have n: "List.find (\<lambda>m. m_id m = u_machineId u) (sc_machines scopeNode) = None"
    by (auto simp: find_None_iff)
  have "\<exists>xs. promise_all (map (\<lambda>importNode.
            (case cache_get c (i_file importNode) of
               None \<Rightarrow> Inr None
             | Some (Inl es) \<Rightarrow> Inl es
             | Some (Inr sc) \<Rightarrow> Inr (Some sc))) imps) = Inr xs"
    using assms(4)
  proof (induction imps)
    case Nil
    show ?case by simp
  next
    case (Cons j imps)
    then obtain xs where "promise_all (map (\<lambda>importNode.
            (case cache_get c (i_file importNode) of
               None \<Rightarrow> Inr None
             | Some (Inl es) \<Rightarrow> Inl es
             | Some (Inr sc) \<Rightarrow> Inr (Some sc))) imps) = Inr xs" by auto
    with Cons.prems show ?case
      by (cases "cache_get c (i_file j)") (auto split: sum.splits)
  qed
  then obtain xs where "promise_all (map (\<lambda>importNode.
            (case cache_get c (i_file importNode) of
               None \<Rightarrow> Inr None
             | Some (Inl es) \<Rightarrow> Inl es
             | Some (Inr sc) \<Rightarrow> Inr (Some sc))) imps) = Inr xs" by blast
  with assms(2,3) have "importedScopes (Some c) (sc_imports scopeNode) = Inr (None # xs)"
    by (simp add: importedScopes_def)
  with n show ?thesis by (simp add: analyzeUseDirectiveNode_def)
qed

text \<open>
  The root scope includes \<open>b.state\<close>, which includes \<open>c.state\<close>, where the machine \<open>M\<close> is.
  Both scopes are in the cache, and the directive \<open>@use M\<close> of the root scope is rejected:
  only the scopes that the root scope includes itself are searched.
\<close>

theorem use_directive_resolution_counterexample:
  "analyzeUseDirectiveNode
      (Some [js ''b.state'' \<mapsto>
               Inr \<lparr>sc_fileName = js ''b.state'',
                    sc_imports = [\<lparr>i_file = js ''c.state'', i_resolved = None, i_line = 1,
                                   i_column = 1\<rparr>],
                    sc_machines = []\<rparr>,
             js ''c.state'' \<mapsto>
               Inr \<lparr>sc_fileName = js ''c.state'', sc_imports = [],
                    sc_machines = [\<lparr>m_id = js ''M'', m_line = 1, m_column = 1, m_states = [],
                                    m_transitions = [], m_eventProtocols = []\<rparr>]\<rparr>])
      \<lparr>sc_fileName = js ''root.state'',
       sc_imports = [\<lparr>i_file = js ''b.state'', i_resolved = None, i_line = 1, i_column = 1\<rparr>],
       sc_machines = []\<rparr>
      (Some \<lparr>u_machineId = js ''M'', u_line = 3, u_column = 3\<rparr>)
     = Inl [SemanticError (MachineNotFound (js ''M'')) (js ''root.state'') 3 3]"
  by code_simp

text \<open>Scenario S5, with the include written \<open>m.state\<close>: the directive resolves across files.\<close>

theorem use_directive_resolution_witness:
  "analyzeUseDirectiveNode
      (Some [js ''m.state'' \<mapsto>
               Inr \<lparr>sc_fileName = js ''m.state'', sc_imports = [],
                    sc_machines = [\<lparr>m_id = js ''M'', m_line = 1, m_column = 1, m_states = [],
                                    m_transitions = [], m_eventProtocols = []\<rparr>]\<rparr>])
      \<lparr>sc_fileName = js ''root.state'',
       sc_imports = [\<lparr>i_file = js ''m.state'', i_resolved = None, i_line = 1, i_column = 1\<rparr>],
       sc_machines = []\<rparr>
      (Some \<lparr>u_machineId = js ''M'', u_line = 3, u_column = 3\<rparr>)
     = Inr (Some \<lparr>u_machineId = js ''M'', u_line = 3, u_column = 3\<rparr>)"
  using use_directive_resolution[of
      "\<lparr>sc_fileName = js ''root.state'',
       sc_imports = [\<lparr>i_file = js ''m.state'', i_resolved = None, i_line = 1, i_column = 1\<rparr>],
       sc_machines = []\<rparr>"
      "\<lparr>u_machineId = js ''M'', u_line = 3, u_column = 3\<rparr>"
      None
      "[js ''m.state'' \<mapsto>
               Inr \<lparr>sc_fileName = js ''m.state'', sc_imports = [],
                    sc_machines = [\<lparr>m_id = js ''M'', m_line = 1, m_column = 1, m_states = [],
                                    m_transitions = [], m_eventProtocols = []\<rparr>]\<rparr>]"]
  by (simp add: cache_get_def)

section \<open>C7: finding the file of an import\<close>

lemma path_normalize_not_empty: "path_normalize p \<noteq> []"
  by (simp add: path_normalize_def Let_def)

lemma path_join_not_empty: "path_join a b \<noteq> []"
  by (simp add: path_join_def Let_def path_normalize_not_empty)

lemma fileNames_not_empty: "n \<in> set (fileNames wireStateFile dirs) \<Longrightarrow> n \<noteq> []"
  by (auto simp: fileNames_def path_join_not_empty)

lemma findIndex_none: "\<forall>x\<in>set xs. \<not> P x \<Longrightarrow> findIndex P xs = - 1"
  by (induction xs) (auto simp: Let_def)

lemma findIndex_first:
  "k < length xs \<Longrightarrow> P (xs ! k) \<Longrightarrow> \<forall>j<k. \<not> P (xs ! j) \<Longrightarrow> findIndex P xs = int k"
proof (induction xs arbitrary: k)
  case Nil
  then show ?case by simp
next
  case (Cons x xs)
  show ?case
  proof (cases k)
    case 0
    with Cons.prems show ?thesis by simp
  next
    case (Suc k')
    from Cons.prems(3) Suc have nx: "\<not> P x" by auto
    have "findIndex P xs = int k'"
    proof (rule Cons.IH)
      show "k' < length xs" using Cons.prems(1) Suc by simp
      show "P (xs ! k')" using Cons.prems(2) Suc by simp
      show "\<forall>j<k'. \<not> P (xs ! j)" using Cons.prems(3) Suc by auto
    qed
    with nx Suc show ?thesis by (simp add: Let_def)
  qed
qed

lemma matchResult_no_error:
  assumes "\<forall>code. fs n = StatFails code \<longrightarrow> code = js ''ENOENT''"
  shows "matchResult fs n = Inr (fs n = IsFile)"
  using assms by (cases "fs n") (auto simp: matchResult_def)

lemma matchResults_no_error:
  assumes "\<forall>n\<in>set names. \<forall>code. fs n = StatFails code \<longrightarrow> code = js ''ENOENT''"
  shows "promise_all (map (matchResult fs) names) = Inr (map (\<lambda>n. fs n = IsFile) names)"
proof -
  have "map (matchResult fs) names = map Inr (map (\<lambda>n. fs n = IsFile) names)"
    using assms by (simp add: matchResult_no_error)
  then show ?thesis by (simp only: promise_all_Inr_iff)
qed

lemma promise_all_rejections:
  "promise_all ps
     = (if \<exists>p\<in>set ps. isl p
        then Inl (concat (map (\<lambda>p. case p of Inl es \<Rightarrow> es | Inr x \<Rightarrow> []) ps))
        else Inr (map projr ps))"
proof (induction ps)
  case Nil
  show ?case by simp
next
  case (Cons p ps)
  then show ?case by (cases p) (auto split: sum.splits)
qed

lemma matchResult_rejections:
  "(case matchResult fs n of Inl es \<Rightarrow> es | Inr x \<Rightarrow> [])
     = (case fs n of
          StatFails code \<Rightarrow> if code = js ''ENOENT'' then [] else [IoError code]
        | _ \<Rightarrow> [])"
  by (cases "fs n") (auto simp: matchResult_def)

lemma isl_matchResult:
  "isl (matchResult fs n) \<longleftrightarrow> (\<exists>code. fs n = StatFails code \<and> code \<noteq> js ''ENOENT'')"
  by (cases "fs n") (auto simp: matchResult_def)

lemma firstMatchedFileName_first:
  assumes "\<forall>n\<in>set (fileNames wireStateFile dirs). \<forall>code. fs n = StatFails code \<longrightarrow> code = js ''ENOENT''"
    and "k < length (fileNames wireStateFile dirs)" and "fs (fileNames wireStateFile dirs ! k) = IsFile"
    and "\<forall>j<k. fs (fileNames wireStateFile dirs ! j) \<noteq> IsFile"
  shows "firstMatchedFileName fs wireStateFile dirs = Inr (fileNames wireStateFile dirs ! k)"
proof -
  let ?names = "fileNames wireStateFile dirs"
  have "findIndex (\<lambda>result. result) (map (\<lambda>n. fs n = IsFile) ?names) = int k"
    using assms(2,3,4) by (intro findIndex_first) auto
  moreover have "?names ! k \<noteq> []"
    using assms(2) fileNames_not_empty[of "?names ! k" wireStateFile dirs] by simp
  ultimately show ?thesis
    using assms(2) by (simp add: firstMatchedFileName_def matchResults_no_error[OF assms(1)] at_def)
qed

lemma firstMatchedFileName_none:
  assumes "\<forall>n\<in>set (fileNames wireStateFile dirs). \<forall>code. fs n = StatFails code \<longrightarrow> code = js ''ENOENT''"
    and "\<forall>n\<in>set (fileNames wireStateFile dirs). fs n \<noteq> IsFile"
  shows "firstMatchedFileName fs wireStateFile dirs = Inl [NotFound wireStateFile]"
proof -
  have "findIndex (\<lambda>result. result) (map (\<lambda>n. fs n = IsFile) (fileNames wireStateFile dirs)) = - 1"
    using assms(2) by (intro findIndex_none) auto
  then show ?thesis
    by (simp add: firstMatchedFileName_def matchResults_no_error[OF assms(1)] at_def)
qed

lemma firstMatchedFileName_error:
  assumes "\<exists>n\<in>set (fileNames wireStateFile dirs). \<exists>code. fs n = StatFails code \<and> code \<noteq> js ''ENOENT''"
  shows "firstMatchedFileName fs wireStateFile dirs
     = Inl (concat (map (\<lambda>n. case fs n of
                               StatFails code \<Rightarrow> if code = js ''ENOENT'' then [] else [IoError code]
                             | _ \<Rightarrow> [])
              (fileNames wireStateFile dirs)))"
proof -
  from assms have "\<exists>p\<in>set (map (matchResult fs) (fileNames wireStateFile dirs)). isl p"
    by (simp add: isl_matchResult)
  then have "promise_all (map (matchResult fs) (fileNames wireStateFile dirs))
      = Inl (concat (map (\<lambda>p. case p of Inl es \<Rightarrow> es | Inr x \<Rightarrow> [])
               (map (matchResult fs) (fileNames wireStateFile dirs))))"
    by (simp only: promise_all_rejections if_True)
  then show ?thesis
    by (simp add: firstMatchedFileName_def comp_def matchResult_rejections)
qed

lemma checkMachineIds_None_iff:
  "checkMachineIds fileName machines = None \<longleftrightarrow> distinct (map m_id machines)"
proof (cases "distinct (map m_id machines)")
  case True
  then show ?thesis by (simp add: checkMachineIds_def firstDuplicate_None_iff[symmetric])
next
  case False
  from firstDuplicate_nodes[OF False] False show ?thesis
    by (auto simp: checkMachineIds_def)
qed

lemma analyzeScopeNode_started:
  assumes "distinct (map m_id (sc_machines scopeNode))"
  shows "snd (analyzeScopeNode resolveState scopeNode copt)
     = map (importFile scopeNode) (sc_imports scopeNode)"
proof -
  from assms have "checkMachineIds (sc_fileName scopeNode) (sc_machines scopeNode) = None"
    by (simp add: checkMachineIds_None_iff)
  then show ?thesis
    by (simp add: analyzeScopeNode_def analyzeImportNode_def Let_def comp_def split: sum.splits)
qed

lemma analyzeScopeNode_imports_only:
  assumes "sc_machines scopeNode = []"
  shows "fst (analyzeScopeNode resolveState scopeNode copt)
     = (scopeNode\<lparr>sc_imports :=
           map (\<lambda>i. i\<lparr>i_resolved := Some (importFile scopeNode i)\<rparr>) (sc_imports scopeNode)\<rparr>,
        None)"
proof -
  from assms have "checkMachineIds (sc_fileName scopeNode) (sc_machines scopeNode) = None"
    by (simp add: checkMachineIds_None_iff)
  with assms show ?thesis
    by (simp add: analyzeScopeNode_def analyzeImportNode_def Let_def comp_def)
qed

text \<open>
  C7, as the code has it. The file of an import that begins with \<open>./\<close> or \<open>.\\<close> is the
  import's path joined to the file name of the parent scope, and of any other import the
  path as written; either is then looked for in every search directory (\<open>.\<close> when there is
  none). requireWireStateFile asks for all the stats at once. When no stat fails with a
  code other than ENOENT, the first directory, in order, where the name is a regular file
  gives the matched file name, and when the name is a regular file in no directory the
  call is rejected with the ENOENT error \<open>WireState file not found\<close>. When a stat fails
  with another code, the call is rejected with such an error of stat, as it is, also where
  a directory has the file: with one of the errors of the stats that failed so. A call that
  is rejected leaves the cache as it was. analyzeScopeNode calls requireWireStateFile for
  the file of each import, in order, and awaits none of these calls: a scope with imports
  and no machine is analysed successfully, whatever the file system has.
\<close>

theorem import_file_resolution:
  "fileNames (importFile parent importNode) dirs
     = map (\<lambda>dir. path_join dir
                    (if startsWith (i_file importNode) (js ''./'')
                        \<or> startsWith (i_file importNode) (js ''.'' @ [backslash])
                     then path_join (sc_fileName parent) (i_file importNode)
                     else i_file importNode))
         (if dirs = [] then [js ''.''] else dirs)
   \<and> ((\<forall>n\<in>set (fileNames wireStateFile dirs). \<forall>code. fs n = StatFails code \<longrightarrow> code = js ''ENOENT'')
       \<and> k < length (fileNames wireStateFile dirs) \<and> fs (fileNames wireStateFile dirs ! k) = IsFile
       \<and> (\<forall>j<k. fs (fileNames wireStateFile dirs ! j) \<noteq> IsFile)
      \<longrightarrow> firstMatchedFileName fs wireStateFile dirs = Inr (fileNames wireStateFile dirs ! k))
   \<and> ((\<forall>n\<in>set (fileNames wireStateFile dirs). \<forall>code. fs n = StatFails code \<longrightarrow> code = js ''ENOENT'')
       \<and> (\<forall>n\<in>set (fileNames wireStateFile dirs). fs n \<noteq> IsFile)
      \<longrightarrow> firstMatchedFileName fs wireStateFile dirs = Inl [NotFound wireStateFile])
   \<and> ((\<exists>n\<in>set (fileNames wireStateFile dirs). \<exists>code. fs n = StatFails code \<and> code \<noteq> js ''ENOENT'')
      \<longrightarrow> firstMatchedFileName fs wireStateFile dirs
            = Inl (concat (map (\<lambda>n. case fs n of
                                      StatFails code \<Rightarrow>
                                        if code = js ''ENOENT'' then [] else [IoError code]
                                    | _ \<Rightarrow> [])
                     (fileNames wireStateFile dirs))))
   \<and> (firstMatchedFileName fs wireStateFile dirs = Inl es
      \<longrightarrow> requireWireStateFile makePromise fs wireStateFile copt dirs = (Inl es, copt))
   \<and> (distinct (map m_id (sc_machines parent))
      \<longrightarrow> snd (analyzeScopeNode resolveState parent copt)
            = map (importFile parent) (sc_imports parent))
   \<and> (sc_machines parent = []
      \<longrightarrow> fst (analyzeScopeNode resolveState parent copt)
            = (parent\<lparr>sc_imports :=
                  map (\<lambda>i. i\<lparr>i_resolved := Some (importFile parent i)\<rparr>) (sc_imports parent)\<rparr>,
               None))"
proof (intro conjI impI)
  show "fileNames (importFile parent importNode) dirs
     = map (\<lambda>dir. path_join dir
                    (if startsWith (i_file importNode) (js ''./'')
                        \<or> startsWith (i_file importNode) (js ''.'' @ [backslash])
                     then path_join (sc_fileName parent) (i_file importNode)
                     else i_file importNode))
         (if dirs = [] then [js ''.''] else dirs)"
    by (simp add: fileNames_def searchDirs_def importFile_def js_def dot_def slash_def)
next
  assume "(\<forall>n\<in>set (fileNames wireStateFile dirs). \<forall>code. fs n = StatFails code \<longrightarrow> code = js ''ENOENT'')
       \<and> k < length (fileNames wireStateFile dirs) \<and> fs (fileNames wireStateFile dirs ! k) = IsFile
       \<and> (\<forall>j<k. fs (fileNames wireStateFile dirs ! j) \<noteq> IsFile)"
  then show "firstMatchedFileName fs wireStateFile dirs = Inr (fileNames wireStateFile dirs ! k)"
    by (intro firstMatchedFileName_first) simp_all
next
  assume "(\<forall>n\<in>set (fileNames wireStateFile dirs). \<forall>code. fs n = StatFails code \<longrightarrow> code = js ''ENOENT'')
       \<and> (\<forall>n\<in>set (fileNames wireStateFile dirs). fs n \<noteq> IsFile)"
  then show "firstMatchedFileName fs wireStateFile dirs = Inl [NotFound wireStateFile]"
    by (intro firstMatchedFileName_none) simp_all
next
  assume "\<exists>n\<in>set (fileNames wireStateFile dirs). \<exists>code. fs n = StatFails code \<and> code \<noteq> js ''ENOENT''"
  then show "firstMatchedFileName fs wireStateFile dirs
            = Inl (concat (map (\<lambda>n. case fs n of
                                      StatFails code \<Rightarrow>
                                        if code = js ''ENOENT'' then [] else [IoError code]
                                    | _ \<Rightarrow> [])
                     (fileNames wireStateFile dirs)))"
    by (rule firstMatchedFileName_error)
next
  assume "firstMatchedFileName fs wireStateFile dirs = Inl es"
  then show "requireWireStateFile makePromise fs wireStateFile copt dirs = (Inl es, copt)"
    by (simp add: requireWireStateFile_def)
next
  assume "distinct (map m_id (sc_machines parent))"
  then show "snd (analyzeScopeNode resolveState parent copt)
            = map (importFile parent) (sc_imports parent)"
    by (rule analyzeScopeNode_started)
next
  assume "sc_machines parent = []"
  then show "fst (analyzeScopeNode resolveState parent copt)
            = (parent\<lparr>sc_imports :=
                  map (\<lambda>i. i\<lparr>i_resolved := Some (importFile parent i)\<rparr>) (sc_imports parent)\<rparr>,
               None)"
    by (rule analyzeScopeNode_imports_only)
qed

text \<open>
  With the search directories \<open>src\<close> and \<open>lib\<close>, where \<open>src/a.state\<close> is a directory and
  \<open>lib/a.state\<close> a regular file, the import \<open>a.state\<close> is matched by \<open>lib/a.state\<close>; a file
  that is nowhere is not found.
\<close>

theorem import_file_resolution_witness:
  "firstMatchedFileName
      (\<lambda>p. if p = js ''lib/a.state'' then IsFile
           else if p = js ''src/a.state'' then NotFile else StatFails (js ''ENOENT''))
      (js ''a.state'') [js ''src'', js ''lib'']
     = Inr (js ''lib/a.state'')
   \<and> firstMatchedFileName (\<lambda>p. StatFails (js ''ENOENT'')) (js ''missing.state'') []
     = Inl [NotFound (js ''missing.state'')]"
proof -
  let ?fs = "\<lambda>p. if p = js ''lib/a.state'' then IsFile
           else if p = js ''src/a.state'' then NotFile else StatFails (js ''ENOENT'')"
  have fn: "fileNames (js ''a.state'') [js ''src'', js ''lib'']
      = [js ''src/a.state'', js ''lib/a.state'']"
    by code_simp
  have ne: "js ''src/a.state'' \<noteq> js ''lib/a.state''"
    by (simp add: js_def)
  have h: "(\<forall>n\<in>set (fileNames (js ''a.state'') [js ''src'', js ''lib'']).
              \<forall>code. ?fs n = StatFails code \<longrightarrow> code = js ''ENOENT'')
       \<and> 1 < length (fileNames (js ''a.state'') [js ''src'', js ''lib''])
       \<and> ?fs (fileNames (js ''a.state'') [js ''src'', js ''lib''] ! 1) = IsFile
       \<and> (\<forall>j<1. ?fs (fileNames (js ''a.state'') [js ''src'', js ''lib''] ! j) \<noteq> IsFile)"
    unfolding fn using ne by simp
  have a: "firstMatchedFileName ?fs (js ''a.state'') [js ''src'', js ''lib'']
      = Inr (fileNames (js ''a.state'') [js ''src'', js ''lib''] ! 1)"
    by (rule import_file_resolution[where fs = ?fs and wireStateFile = "js ''a.state''"
        and dirs = "[js ''src'', js ''lib'']" and k = 1,
        THEN conjunct2, THEN conjunct1, THEN mp, OF h])
  have h2: "(\<forall>n\<in>set (fileNames (js ''missing.state'') []).
              \<forall>code. StatFails (js ''ENOENT'') = StatFails code \<longrightarrow> code = js ''ENOENT'')
       \<and> (\<forall>n\<in>set (fileNames (js ''missing.state'') []). StatFails (js ''ENOENT'') \<noteq> IsFile)"
    by simp
  have b: "firstMatchedFileName (\<lambda>p. StatFails (js ''ENOENT'')) (js ''missing.state'') []
      = Inl [NotFound (js ''missing.state'')]"
    by (rule import_file_resolution[where fs = "\<lambda>p. StatFails (js ''ENOENT'')"
        and wireStateFile = "js ''missing.state''" and dirs = "[]",
        THEN conjunct2, THEN conjunct2, THEN conjunct1, THEN mp, OF h2])
  from a have a': "firstMatchedFileName ?fs (js ''a.state'') [js ''src'', js ''lib'']
      = Inr (js ''lib/a.state'')"
    unfolding fn by simp
  from a' b show ?thesis by (rule conjI)
qed

text \<open>
  The claim as stated fails. With the search directories \<open>lib\<close> and \<open>plainfile\<close>, where
  \<open>lib/a.state\<close> is a regular file and \<open>plainfile\<close> is a file, so that the stat of
  \<open>plainfile/a.state\<close> fails with ENOTDIR, the first directory has the file and the import
  \<open>a.state\<close> is rejected with ENOTDIR all the same. The import \<open>./modal.state\<close> of the scope
  of \<open>dir/app.state\<close> is looked for under the search directory, at
  \<open>lib/dir/app.state/modal.state\<close>. And the scope that imports \<open>missing.state\<close>, which is
  nowhere, is analysed successfully: the call that is rejected with the ENOENT error is
  the one for \<open>missing.state\<close> that the analysis has started and does not await.
\<close>

theorem import_file_resolution_counterexample:
  "firstMatchedFileName
      (\<lambda>p. if p = js ''lib/a.state'' then IsFile
           else if p = js ''plainfile/a.state'' then StatFails (js ''ENOTDIR'')
           else StatFails (js ''ENOENT''))
      (js ''a.state'') [js ''lib'', js ''plainfile'']
     = Inl [IoError (js ''ENOTDIR'')]
   \<and> fileNames
        (importFile \<lparr>sc_fileName = js ''dir/app.state'', sc_imports = [], sc_machines = []\<rparr>
           \<lparr>i_file = js ''./modal.state'', i_resolved = None, i_line = 1, i_column = 1\<rparr>)
        [js ''lib'']
     = [js ''lib/dir/app.state/modal.state'']
   \<and> analyzeScopeNode (\<lambda>t. True)
        \<lparr>sc_fileName = js ''app.state'',
         sc_imports = [\<lparr>i_file = js ''missing.state'', i_resolved = None, i_line = 1,
                        i_column = 1\<rparr>],
         sc_machines = []\<rparr> (Some Map.empty)
     = ((\<lparr>sc_fileName = js ''app.state'',
          sc_imports = [\<lparr>i_file = js ''missing.state'', i_resolved = Some (js ''missing.state''),
                         i_line = 1, i_column = 1\<rparr>],
          sc_machines = []\<rparr>, None),
        [js ''missing.state''])
   \<and> fst (requireWireStateFile (\<lambda>f ds. Inl [TypeError]) (\<lambda>p. StatFails (js ''ENOENT''))
        (js ''missing.state'') (Some Map.empty) [])
     = Inl [NotFound (js ''missing.state'')]"
  by code_simp

section \<open>C8: the generator dispatcher\<close>

lemma js_json_not_empty: "js ''json'' \<noteq> []" "js ''xstate'' \<noteq> []" "js ''json'' \<noteq> js ''xstate''"
  by (simp_all add: js_def)

text \<open>
  C8. generate runs the json generator when the name is \<open>json\<close> or is left out, and the
  xstate generator (with the flag disableCallbacks, false by default) when it is \<open>xstate\<close>.
  For every other name it fails with an Error and calls no generator, so the state is the
  one it was given: the message is \<open>Generator "name" not found\<close>, and for the empty name,
  which the guard at the start rejects, \<open>Generator name must be provided\<close>.
\<close>

theorem generate_dispatch:
  "generate jsonGenerator xstateGenerator cache None d
     = (Inr (fst (jsonGenerator cache)), snd (jsonGenerator cache))
   \<and> generate jsonGenerator xstateGenerator cache (Some (js ''json'')) d
     = (Inr (fst (jsonGenerator cache)), snd (jsonGenerator cache))
   \<and> generate jsonGenerator xstateGenerator cache (Some (js ''xstate'')) d
     = (Inr (fst (xstateGenerator (case d of None \<Rightarrow> False | Some b \<Rightarrow> b) cache)),
        snd (xstateGenerator (case d of None \<Rightarrow> False | Some b \<Rightarrow> b) cache))
   \<and> (name \<noteq> js ''json'' \<and> name \<noteq> js ''xstate'' \<longrightarrow>
        generate jsonGenerator xstateGenerator cache (Some name) d
          = (Inl (Error (if name = [] then js ''Generator name must be provided''
                         else js ''Generator '' @ [quote] @ name @ [quote] @ js '' not found'')),
             cache))"
  using js_json_not_empty by (simp add: generate_def Let_def)

theorem generate_dispatch_witness:
  "generate (\<lambda>c. (js ''{}'', c @ [js ''json''])) (\<lambda>b c. (js ''export'', c @ [js ''xstate'']))
      [] (Some (js ''yaml'')) None
     = (Inl (Error (js ''Generator '' @ [quote] @ js ''yaml'' @ [quote] @ js '' not found'')), [])"
proof -
  have h: "js ''yaml'' \<noteq> js ''json'' \<and> js ''yaml'' \<noteq> js ''xstate''" "js ''yaml'' \<noteq> []"
    by (simp_all add: js_def)
  show ?thesis
    using h generate_dispatch[of "\<lambda>c. (js ''{}'', c @ [js ''json''])"
        "\<lambda>b c. (js ''export'', c @ [js ''xstate''])" "[]" None "js ''yaml''"]
    by simp
qed

section \<open>C9: the command line\<close>

text \<open>
  C9. The script reads the option \<open>--dir\<close>, not \<open>--srcDir\<close>, and readOption never returns a
  scalar default: with \<open>--srcDir statecharts\<close>, and with no directory option at all, main
  ends in the exception \<open>Option --dir only allows one value\<close> before anything is compiled.
  With \<open>--dir\<close>, \<open>--generator\<close> and \<open>--cacheDir\<close> all given, the directory reaches the compiler.
\<close>

theorem main_srcDir_rejected:
  "main [js ''app.wirestate'', js ''--srcDir'', js ''statecharts'']
     = Uncaught (OptionOnlyOneValue [js ''--dir''])
   \<and> main [js ''app.wirestate'', js ''--srcDir=statecharts'']
     = Uncaught (OptionOnlyOneValue [js ''--dir''])
   \<and> main [js ''app.wirestate''] = Uncaught (OptionOnlyOneValue [js ''--dir''])
   \<and> main [js ''app.wirestate'', js ''--dir'', js ''statecharts'', js ''--generator=json'',
            js ''--cacheDir'', js ''.wirestate'']
     = Compile (js ''app.wirestate'') (JSString (js ''statecharts'')) (JSString (js ''json''))
         (JSString (js ''.wirestate''))"
  by code_simp

section \<open>C10: the entry point analyze\<close>

text \<open>
  C10. For an argument that is not a ScopeNode, analyze throws the Error with the message
  \<open>Can only analyzie ScopeNode instances\<close>: the call throws, it returns no promise, it starts
  no requireWireStateFile call, the only code that writes to the cache, and it leaves every
  object as it is. For a ScopeNode, analyze returns the promise of analyzeScopeNode on a
  clone: a new object, which holds the scope as the analysis leaves it and which the
  promise is fulfilled with, while the argument and every other object are as they were.
\<close>

theorem analyze_argument:
  "((\<forall>a. v = JSObject a \<longrightarrow> length st \<le> a) \<longrightarrow>
      analyze resolveState st v copt
        = ((Throws (Error (js ''Can only analyzie ScopeNode instances'')), []), st))
   \<and> (a < length st \<longrightarrow>
        fst (fst (analyze resolveState st (JSObject a) copt))
          = Returns (case snd (fst (analyzeScopeNode resolveState (st ! a) copt)) of
                       None \<Rightarrow> Inr (JSObject (length st))
                     | Some es \<Rightarrow> Inl es)
        \<and> snd (fst (analyze resolveState st (JSObject a) copt))
          = snd (analyzeScopeNode resolveState (st ! a) copt)
        \<and> length (snd (analyze resolveState st (JSObject a) copt)) = length st + 1
        \<and> (\<forall>i<length st. snd (analyze resolveState st (JSObject a) copt) ! i = st ! i)
        \<and> snd (analyze resolveState st (JSObject a) copt) ! length st
          = fst (fst (analyzeScopeNode resolveState (st ! a) copt)))"
proof (intro conjI impI)
  assume "\<forall>a. v = JSObject a \<longrightarrow> length st \<le> a"
  then show "analyze resolveState st v copt
        = ((Throws (Error (js ''Can only analyzie ScopeNode instances'')), []), st)"
    by (cases v) (auto simp: analyze_def)
next
  assume a: "a < length st"
  have c: "snd (clone st a) ! fst (clone st a) = st ! a" "fst (clone st a) = length st"
    "snd (clone st a) = st @ [st ! a]"
    by (simp_all add: clone_def)
  from a c show "fst (fst (analyze resolveState st (JSObject a) copt))
          = Returns (case snd (fst (analyzeScopeNode resolveState (st ! a) copt)) of
                       None \<Rightarrow> Inr (JSObject (length st))
                     | Some es \<Rightarrow> Inl es)"
    by (simp add: analyze_def Let_def split: option.splits)
  from a c show "snd (fst (analyze resolveState st (JSObject a) copt))
          = snd (analyzeScopeNode resolveState (st ! a) copt)"
    by (simp add: analyze_def Let_def)
  from a c show "length (snd (analyze resolveState st (JSObject a) copt)) = length st + 1"
    by (simp add: analyze_def Let_def)
  from a c show "\<forall>i<length st. snd (analyze resolveState st (JSObject a) copt) ! i = st ! i"
    by (simp add: analyze_def Let_def nth_append)
  from a c show "snd (analyze resolveState st (JSObject a) copt) ! length st
          = fst (fst (analyzeScopeNode resolveState (st ! a) copt))"
    by (simp add: analyze_def Let_def)
qed

text \<open>
  A string is rejected by a throw. For the scope of scenario S2 (\<open>A*\<close> with the child \<open>B\<close>,
  then \<open>C\<close>) the argument keeps the atomic \<open>A\<close> and the unmarked \<open>B\<close>; the clone, a second
  object, has the compound \<open>A\<close> and the initial \<open>B\<close>.
\<close>

theorem analyze_argument_witness:
  "analyze (\<lambda>t. True) [] (JSString (js ''Home*'')) (Some Map.empty)
     = ((Throws (Error (js ''Can only analyzie ScopeNode instances'')), []), [])
   \<and> analyze (\<lambda>t. True)
       [\<lparr>sc_fileName = js ''app.state'', sc_imports = [],
         sc_machines =
           [\<lparr>m_id = js ''app'', m_line = 1, m_column = 1,
             m_states = [StateNode (js ''A'') Atomic True 1 1
                           [StateNode (js ''B'') Atomic False 2 3 [] [] [] None] [] [] None,
                         StateNode (js ''C'') Atomic False 3 1 [] [] [] None],
             m_transitions = [], m_eventProtocols = []\<rparr>]\<rparr>]
       (JSObject 0) None
     = ((Returns (Inr (JSObject 1)), []),
        [\<lparr>sc_fileName = js ''app.state'', sc_imports = [],
          sc_machines =
            [\<lparr>m_id = js ''app'', m_line = 1, m_column = 1,
              m_states = [StateNode (js ''A'') Atomic True 1 1
                            [StateNode (js ''B'') Atomic False 2 3 [] [] [] None] [] [] None,
                          StateNode (js ''C'') Atomic False 3 1 [] [] [] None],
              m_transitions = [], m_eventProtocols = []\<rparr>]\<rparr>,
         \<lparr>sc_fileName = js ''app.state'', sc_imports = [],
          sc_machines =
            [\<lparr>m_id = js ''app'', m_line = 1, m_column = 1,
              m_states = [StateNode (js ''A'') Compound True 1 1
                            [StateNode (js ''B'') Atomic True 2 3 [] [] [] None] [] [] None,
                          StateNode (js ''C'') Atomic False 3 1 [] [] [] None],
              m_transitions = [], m_eventProtocols = []\<rparr>]\<rparr>])"
proof -
  have t: "analyze (\<lambda>t. True) [] (JSString (js ''Home*'')) (Some Map.empty)
     = ((Throws (Error (js ''Can only analyzie ScopeNode instances'')), []), [])"
    by (rule analyze_argument[where v = "JSString (js ''Home*'')" and st = "[]",
          THEN conjunct1, THEN mp]) simp
  have r: "analyze (\<lambda>t. True)
       [\<lparr>sc_fileName = js ''app.state'', sc_imports = [],
         sc_machines =
           [\<lparr>m_id = js ''app'', m_line = 1, m_column = 1,
             m_states = [StateNode (js ''A'') Atomic True 1 1
                           [StateNode (js ''B'') Atomic False 2 3 [] [] [] None] [] [] None,
                         StateNode (js ''C'') Atomic False 3 1 [] [] [] None],
             m_transitions = [], m_eventProtocols = []\<rparr>]\<rparr>]
       (JSObject 0) None
     = ((Returns (Inr (JSObject 1)), []),
        [\<lparr>sc_fileName = js ''app.state'', sc_imports = [],
          sc_machines =
            [\<lparr>m_id = js ''app'', m_line = 1, m_column = 1,
              m_states = [StateNode (js ''A'') Atomic True 1 1
                            [StateNode (js ''B'') Atomic False 2 3 [] [] [] None] [] [] None,
                          StateNode (js ''C'') Atomic False 3 1 [] [] [] None],
              m_transitions = [], m_eventProtocols = []\<rparr>]\<rparr>,
         \<lparr>sc_fileName = js ''app.state'', sc_imports = [],
          sc_machines =
            [\<lparr>m_id = js ''app'', m_line = 1, m_column = 1,
              m_states = [StateNode (js ''A'') Compound True 1 1
                            [StateNode (js ''B'') Atomic True 2 3 [] [] [] None] [] [] None,
                          StateNode (js ''C'') Atomic False 3 1 [] [] [] None],
              m_transitions = [], m_eventProtocols = []\<rparr>]\<rparr>])"
    by code_simp
  from t r show ?thesis by (rule conjI)
qed

end
